theory Spec2Isabelle
  imports Complex_Main "HOL-Library.Sublist" "HOL-Library.FSet"
begin

section \<open>Python strings\<close>

text \<open>
  A Python \<open>str\<close> is a sequence of Unicode code points, so a string is a list of
  code points (\<open>nat\<close>): \<open>len\<close> is \<open>length\<close> and the object-replacement character
  U+FFFC is the single element 65532. ASCII literals of the source are written through
  \<open>ustr\<close>. A nullable column of the database is an \<open>option\<close>.
\<close>

type_synonym ustring = "nat list"

definition ustr :: "string \<Rightarrow> ustring" where
  "ustr s = map of_char s"

definition OBJ :: nat where
  \<comment> \<open>the code point U+FFFC of the source's one-character literal, the object-replacement character\<close>
  "OBJ = 65532"

definition truthy :: "ustring option \<Rightarrow> bool" where
  \<comment> \<open>Python truth value of a nullable string: neither \<open>None\<close> nor \<open>""\<close>\<close>
  "truthy x = (case x of None \<Rightarrow> False | Some s \<Rightarrow> s \<noteq> [])"

definition or_else :: "ustring option \<Rightarrow> ustring \<Rightarrow> ustring" where
  \<comment> \<open>\<open>x or d\<close> for a nullable string \<open>x\<close>\<close>
  "or_else x d = (case x of None \<Rightarrow> d | Some s \<Rightarrow> if s = [] then d else s)"

definition isspace :: "nat \<Rightarrow> bool" where
  \<comment> \<open>the code points that \<open>str.strip()\<close> removes and that \<open>\s\<close> matches in a \<open>str\<close> pattern\<close>
  "isspace c \<longleftrightarrow>
     (9 \<le> c \<and> c \<le> 13) \<or> (28 \<le> c \<and> c \<le> 32) \<or> c = 133 \<or> c = 160 \<or> c = 5760 \<or>
     (8192 \<le> c \<and> c \<le> 8202) \<or> c = 8232 \<or> c = 8233 \<or> c = 8239 \<or> c = 8287 \<or> c = 12288"

definition strip :: "ustring \<Rightarrow> ustring" where
  \<comment> \<open>\<open>s.strip()\<close>\<close>
  "strip s = rev (dropWhile isspace (rev (dropWhile isspace s)))"

definition startswith :: "ustring \<Rightarrow> ustring \<Rightarrow> bool" where
  \<comment> \<open>\<open>s.startswith(p)\<close>\<close>
  "startswith s p = prefix p s"

fun str_in :: "ustring \<Rightarrow> ustring \<Rightarrow> bool" where
  \<comment> \<open>\<open>needle in hay\<close>\<close>
  "str_in needle [] = (needle = [])"
| "str_in needle (c # cs) = (prefix needle (c # cs) \<or> str_in needle cs)"

fun join_str :: "ustring \<Rightarrow> ustring list \<Rightarrow> ustring" where
  \<comment> \<open>\<open>sep.join(parts)\<close>\<close>
  "join_str sep [] = []"
| "join_str sep [p] = p"
| "join_str sep (p # q # ps) = p @ sep @ join_str sep (q # ps)"

definition digit :: "nat \<Rightarrow> nat" where
  "digit d = 48 + d"

fun str_nat :: "nat \<Rightarrow> ustring" where
  \<comment> \<open>\<open>str(n)\<close> for a non-negative integer: its decimal digits\<close>
  "str_nat n = (if n < 10 then [digit n] else str_nat (n div 10) @ [digit (n mod 10)])"

declare str_nat.simps [simp del]

definition str_int :: "int \<Rightarrow> ustring" where
  \<comment> \<open>\<open>str(i)\<close> for an integer\<close>
  "str_int i = (if i < 0 then 45 # str_nat (nat (- i)) else str_nat (nat i))"

section \<open>Timestamp normalizer\<close>

text \<open>
  The library and the operating system are parameters of the model. \<open>fromtimestamp\<close> is
  \<open>datetime.datetime.fromtimestamp\<close>, which raises for values outside the supported range,
  hence the sum; \<open>strftime\<close> is \<open>dt.strftime("%Y-%m-%d %-I:%M %p")\<close>;
  \<open>APPLE_EPOCH_OFFSET\<close> is the module constant computed from the local time zone at
  import time. Python's float arithmetic is idealised as arithmetic on \<open>real\<close>; the
  comparisons of an \<open>int\<close> with \<open>1e15\<close> and \<open>1e12\<close> are exact in Python as they are here.
\<close>

datatype exn = ValueError | OverflowError | OSError

type_synonym path = ustring

type_synonym filesystem = "path fset"

record 'dt platform =
  APPLE_EPOCH_OFFSET :: real
  fromtimestamp :: "real \<Rightarrow> exn + 'dt"
  strftime :: "'dt \<Rightarrow> ustring"
  lower :: "ustring \<Rightarrow> ustring"
  expanduser :: "path \<Rightarrow> path"
  copy2 :: "path \<Rightarrow> path \<Rightarrow> filesystem \<Rightarrow> bool \<times> filesystem"
  makedirs :: "path \<Rightarrow> filesystem \<Rightarrow> filesystem"
  write_text :: "path \<Rightarrow> ustring \<Rightarrow> filesystem \<Rightarrow> filesystem"

definition apple_timestamp_to_datetime ::
  "('dt, 'z) platform_scheme \<Rightarrow> int option \<Rightarrow> exn + 'dt option" where
  "apple_timestamp_to_datetime P timestamp =
     (case timestamp of
        None \<Rightarrow> Inr None
      | Some t \<Rightarrow>
          if t = 0 then Inr None
          else
            let ts = (if real_of_int t > 10 ^ 15 then real_of_int t / 10 ^ 9
                      else if real_of_int t > 10 ^ 12 then real_of_int t / 10 ^ 9
                      else real_of_int t)
            in (case fromtimestamp P (ts + APPLE_EPOCH_OFFSET P) of
                  Inl e \<Rightarrow> Inl e
                | Inr d \<Rightarrow> Inr (Some d)))"

section \<open>Identity and filename sanitizer\<close>

definition invalid_char :: "nat \<Rightarrow> bool" where
  \<comment> \<open>the character class \<open>[<>:"/\\|?*\x00-\x1f]\<close>\<close>
  "invalid_char c \<longleftrightarrow>
     c = 60 \<or> c = 62 \<or> c = 58 \<or> c = 34 \<or> c = 47 \<or> c = 92 \<or> c = 124 \<or> c = 63 \<or> c = 42 \<or>
     c \<le> 31"

definition sub_invalid :: "ustring \<Rightarrow> ustring" where
  \<comment> \<open>\<open>re.sub(r'[<>:"/\\|?*\x00-\x1f]', '_', name)\<close>\<close>
  "sub_invalid name = map (\<lambda>c. if invalid_char c then 95 else c) name"

definition run_char :: "nat \<Rightarrow> bool" where
  \<comment> \<open>the character class \<open>[_\s]\<close>\<close>
  "run_char c \<longleftrightarrow> c = 95 \<or> isspace c"

function sub_runs :: "ustring \<Rightarrow> ustring" where
  \<comment> \<open>\<open>re.sub(r'[_\s]+', ' ', s)\<close>: every maximal run becomes one space\<close>
  "sub_runs [] = []"
| "sub_runs (c # cs) =
     (if run_char c then 32 # sub_runs (dropWhile run_char cs) else c # sub_runs cs)"
  by pat_completeness auto
termination
  by (relation "measure length") (auto simp: length_dropWhile_le less_Suc_eq_le)

definition sanitize_filename :: "ustring option \<Rightarrow> ustring" where
  "sanitize_filename name =
     (case name of
        None \<Rightarrow> ustr ''Unknown''
      | Some n \<Rightarrow>
          if n = [] then ustr ''Unknown''
          else
            let sanitized = sub_invalid n;
                sanitized = strip (sub_runs sanitized);
                sanitized = (if length sanitized > 100 then strip (take 100 sanitized)
                             else sanitized)
            in if sanitized = [] then ustr ''Unknown'' else sanitized)"

section \<open>Records of the query layer\<close>

text \<open>
  The three queries of the source return rows; a row is a record with the columns the
  code reads (the columns \<open>date_delivered\<close>, \<open>date_read\<close>, \<open>service\<close>, \<open>mime_type\<close> and
  \<open>total_bytes\<close> are selected and never read). The column \<open>text\<close> is the field \<open>msg_text\<close>.
  The connection is the three query functions: \<open>get_messages_for_chat\<close> returns the rows
  in the order of the query's \<open>ORDER BY m.date ASC\<close>.
\<close>

record chat =
  chat_id :: int
  chat_identifier :: "ustring option"
  display_name :: "ustring option"
  chat_style :: "int option"
  participants :: "ustring option"

record message =
  message_id :: int
  msg_text :: "ustring option"
  message_date :: "int option"
  is_from_me :: "int option"
  associated_message_type :: "int option"
  sender_id :: "ustring option"

record attachment =
  attachment_id :: int
  filename :: "ustring option"
  transfer_name :: "ustring option"

record connection =
  get_chats :: "chat list"
  get_messages_for_chat :: "int \<Rightarrow> message list"
  get_attachments_for_message :: "int \<Rightarrow> attachment list"

definition get_chat_display_name :: "chat \<Rightarrow> ustring" where
  "get_chat_display_name c =
     (if truthy (display_name c) then or_else (display_name c) []
      else if truthy (participants c) then or_else (participants c) []
      else if truthy (chat_identifier c) then or_else (chat_identifier c) []
      else ustr ''Chat '' @ str_int (chat_id c))"

section \<open>Reaction classifier\<close>

definition reactions :: "(int \<times> ustring) list" where
  "reactions =
     [(2000, ustr ''Loved''), (2001, ustr ''Liked''), (2002, ustr ''Disliked''),
      (2003, ustr ''Laughed at''), (2004, ustr ''Emphasized''), (2005, ustr ''Questioned''),
      (3000, ustr ''Removed love from''), (3001, ustr ''Removed like from''),
      (3002, ustr ''Removed dislike from''), (3003, ustr ''Removed laugh from''),
      (3004, ustr ''Removed emphasis from''), (3005, ustr ''Removed question from'')]"

definition format_reaction :: "int option \<Rightarrow> ustring option" where
  \<comment> \<open>\<open>reactions.get(associated_message_type)\<close>\<close>
  "format_reaction associated = (case associated of None \<Rightarrow> None | Some c \<Rightarrow> map_of reactions c)"

definition reaction_target :: "message \<Rightarrow> ustring" where
  \<comment> \<open>lines 296 to 299: \<open>target_text\<close> of a reaction\<close>
  "reaction_target msg =
     (let target_text = or_else (msg_text msg) (ustr ''a message'')
      in if startswith target_text [OBJ] then ustr ''a message'' else target_text)"

section \<open>Attachment materializer\<close>

text \<open>
  The file system is the finite set of the paths for which \<open>os.path.exists\<close> holds.
  \<open>basename\<close>, \<open>join\<close> and \<open>splitext\<close> are those of \<open>posixpath\<close>; \<open>expanduser\<close> and
  \<open>shutil.copy2\<close> belong to the platform: \<open>copy2\<close> returns whether the copy succeeded
  (\<open>False\<close>: it raised \<open>OSError\<close>) and the file system it leaves.
\<close>

definition basename :: "path \<Rightarrow> path" where
  \<comment> \<open>what follows the last \<open>/\<close>\<close>
  "basename p = rev (takeWhile (\<lambda>c. c \<noteq> 47) (rev p))"

definition join :: "path \<Rightarrow> path \<Rightarrow> path" where
  "join a b =
     (if startswith b [47] then b
      else if a = [] \<or> last a = 47 then a @ b
      else a @ [47] @ b)"

definition splitext :: "path \<Rightarrow> path \<times> path" where
  \<comment> \<open>the last dot of the last component splits, unless only dots come before it there\<close>
  "splitext p =
     (let after_dot = rev (takeWhile (\<lambda>c. c \<noteq> 46) (rev p));
          name = basename p;
          dot_index = length p - length after_dot - 1
      in if 46 \<in> set name \<and> list_ex (\<lambda>c. c \<noteq> 46) (take (length name - length after_dot - 1) name)
         then (take dot_index p, drop dot_index p)
         else (p, []))"

definition candidate :: "path \<Rightarrow> ustring \<Rightarrow> ustring \<Rightarrow> nat \<Rightarrow> path" where
  \<comment> \<open>\<open>os.path.join(dest_dir, f"{base}_{counter}{ext}")\<close>\<close>
  "candidate dest_dir base ext counter = join dest_dir (base @ [95] @ str_nat counter @ ext)"

lemma str_nat_not_Nil: "str_nat n \<noteq> []"
  by (subst str_nat.simps) simp

lemma str_nat_inject: "str_nat m = str_nat n \<Longrightarrow> m = n"
proof (induction n arbitrary: m rule: str_nat.induct)
  case (1 n)
  show ?case
  proof (cases "n < 10")
    case True
    then have n: "str_nat n = [digit n]" by (subst str_nat.simps) simp
    show ?thesis
    proof (cases "m < 10")
      case True
      then have "str_nat m = [digit m]" by (subst str_nat.simps) simp
      with n "1.prems" show ?thesis by (simp add: digit_def)
    next
      case False
      then have "str_nat m = str_nat (m div 10) @ [digit (m mod 10)]"
        by (subst str_nat.simps) simp
      with n "1.prems" str_nat_not_Nil [of "m div 10"] show ?thesis by simp
    qed
  next
    case False
    then have n: "str_nat n = str_nat (n div 10) @ [digit (n mod 10)]"
      by (subst str_nat.simps) simp
    show ?thesis
    proof (cases "m < 10")
      case True
      then have "str_nat m = [digit m]" by (subst str_nat.simps) simp
      with n "1.prems" str_nat_not_Nil [of "n div 10"] show ?thesis by simp
    next
      case m: False
      then have "str_nat m = str_nat (m div 10) @ [digit (m mod 10)]"
        by (subst str_nat.simps) simp
      with n "1.prems" have e: "str_nat (m div 10) = str_nat (n div 10)" "m mod 10 = n mod 10"
        by (simp_all add: digit_def)
      from "1.IH" [OF False e(1)] have "m div 10 = n div 10" .
      with e(2) show ?thesis by (metis div_mult_mod_eq)
    qed
  qed
qed

lemma candidate_inject: "candidate d b e m = candidate d b e n \<Longrightarrow> m = n"
  by (cases b)
    (auto simp: candidate_def join_def startswith_def str_nat_inject split: if_splits)

lemma finite_candidates: "finite {n. candidate d b e n |\<in>| fs}"
proof -
  have "inj (candidate d b e)" by (rule injI) (rule candidate_inject)
  then have "finite (candidate d b e -` fset fs)" by (rule finite_vimageI [rotated]) simp
  then show ?thesis by (simp add: vimage_def)
qed

function collision_loop ::
  "filesystem \<Rightarrow> path \<Rightarrow> ustring \<Rightarrow> ustring \<Rightarrow> path \<Rightarrow> nat \<Rightarrow> path \<times> nat" where
  \<comment> \<open>lines 194 to 196, from the loop variables \<open>dest_path\<close> and \<open>counter\<close> to their final values\<close>
  "collision_loop fs dest_dir base ext dest_path counter =
     (if dest_path |\<in>| fs
      then collision_loop fs dest_dir base ext (candidate dest_dir base ext counter) (counter + 1)
      else (dest_path, counter))"
  by pat_completeness auto
termination
proof (relation "measure (\<lambda>(fs, d, b, e, p, k).
    card {n. k \<le> n \<and> candidate d b e n |\<in>| fs} + (if p |\<in>| fs then 1 else 0))", goal_cases)
  case 1
  show ?case by simp
next
  case (2 fs d b e p k)
  let ?A = "{n. k \<le> n \<and> candidate d b e n |\<in>| fs}"
  let ?B = "{n. k + 1 \<le> n \<and> candidate d b e n |\<in>| fs}"
  have fin: "finite ?A" "finite ?B"
    using finite_candidates [of d b e fs] by simp_all
  show ?case
  proof (cases "candidate d b e k |\<in>| fs")
    case True
    then have "?A = insert k ?B" by (auto simp: le_less Suc_le_eq)
    moreover have "k \<notin> ?B" by simp
    ultimately have "card ?A = Suc (card ?B)" using fin by simp
    with True 2 show ?thesis by simp
  next
    case False
    then have "?A = ?B" by (auto simp: Suc_le_eq) (metis le_neq_implies_less)
    with False 2 show ?thesis by simp
  qed
qed

declare collision_loop.simps [simp del]

definition resolve_source :: "('dt, 'z) platform_scheme \<Rightarrow> attachment \<Rightarrow> path" where
  \<comment> \<open>lines 180 to 183: \<open>source_path\<close>, for an attachment with a filename\<close>
  "resolve_source P att =
     (let source_path = or_else (filename att) []
      in if startswith source_path [126] then expanduser P source_path else source_path)"

definition dest_name_of :: "attachment \<Rightarrow> path \<Rightarrow> ustring" where
  \<comment> \<open>line 188: \<open>dest_name\<close>\<close>
  "dest_name_of att source_path = or_else (transfer_name att) (basename source_path)"

definition choose_dest :: "filesystem \<Rightarrow> path \<Rightarrow> attachment \<Rightarrow> path \<Rightarrow> path" where
  \<comment> \<open>lines 188 to 196: \<open>dest_path\<close> when the collision loop exits\<close>
  "choose_dest fs dest_dir att source_path =
     (let dest_name = dest_name_of att source_path;
          dest_path = join dest_dir dest_name;
          (base, ext) = splitext dest_name;
          (dest_path, counter) = collision_loop fs dest_dir base ext dest_path 1
      in dest_path)"

definition copy_attachment_file ::
  "('dt, 'z) platform_scheme \<Rightarrow> attachment \<Rightarrow> path \<Rightarrow> filesystem \<Rightarrow> ustring option \<times> filesystem"
  where
  "copy_attachment_file P att dest_dir fs =
     (if \<not> truthy (filename att) then (None, fs)
      else
        let source_path = resolve_source P att
        in if \<not> source_path |\<in>| fs then (None, fs)
           else
             let dest_path = choose_dest fs dest_dir att source_path;
                 (copied, fs') = copy2 P source_path dest_path fs
             in if copied then (Some (basename dest_path), fs') else (None, fs'))"

section \<open>Transcript assembler\<close>

text \<open>
  The state of \<open>do_readable_export\<close>: the file system, the three running totals and the
  lines of the transcript under construction. A call of \<open>fromtimestamp\<close> that raises ends
  the export with the exception (\<open>Inl\<close>). Output on the terminal is not modelled, nor are
  failures of \<open>os.makedirs\<close>, of the queries and of writing the transcript.
\<close>

record export_state =
  files :: filesystem
  total_messages :: nat
  total_attachments_copied :: nat
  exported_chats :: nat
  lines :: "ustring list"

definition is_true :: "int option \<Rightarrow> bool" where
  \<comment> \<open>Python truth value of a nullable integer\<close>
  "is_true x = (case x of None \<Rightarrow> False | Some n \<Rightarrow> n \<noteq> 0)"

fun attachment_loop ::
  "('dt, 'z) platform_scheme \<Rightarrow> path \<Rightarrow> attachment list \<Rightarrow> ustring list \<Rightarrow> export_state \<Rightarrow>
   ustring list \<times> export_state" where
  \<comment> \<open>lines 309 to 318, from \<open>attachment_notes\<close> and the state to their final values\<close>
  "attachment_loop P att_dir [] attachment_notes st = (attachment_notes, st)"
| "attachment_loop P att_dir (att # atts) attachment_notes st =
     (let att_name = or_else (transfer_name att) (ustr ''file'');
          (copied_name, fs') = copy_attachment_file P att att_dir (makedirs P att_dir (files st))
      in if truthy copied_name
         then attachment_loop P att_dir atts
                (attachment_notes @ [ustr ''<attachment: '' @ or_else copied_name [] @ ustr ''>''])
                (st\<lparr>files := fs', total_attachments_copied := total_attachments_copied st + 1\<rparr>)
         else attachment_loop P att_dir atts
                (attachment_notes @ [ustr ''<attachment: '' @ att_name @ ustr '' (not available)>''])
                (st\<lparr>files := fs'\<rparr>))"

definition attachment_note :: "attachment \<Rightarrow> ustring option \<Rightarrow> ustring" where
  \<comment> \<open>lines 314 to 318: the note appended for an attachment, from the result of the copy\<close>
  "attachment_note att copied_name =
     (if truthy copied_name then ustr ''<attachment: '' @ or_else copied_name [] @ ustr ''>''
      else ustr ''<attachment: '' @ or_else (transfer_name att) (ustr ''file'') @
           ustr '' (not available)>'')"

definition message_parts :: "ustring \<Rightarrow> ustring list \<Rightarrow> ustring list" where
  \<comment> \<open>lines 321 to 327\<close>
  "message_parts text attachment_notes =
     (if strip text \<noteq> []
      then (let clean_text = strip (filter (\<lambda>c. c \<noteq> OBJ) text)
            in if clean_text \<noteq> [] then [clean_text] else [])
      else []) @ attachment_notes"

definition timestamp_label :: "('dt, 'z) platform_scheme \<Rightarrow> 'dt option \<Rightarrow> ustring" where
  \<comment> \<open>line 289: \<open>timestamp\<close>\<close>
  "timestamp_label P dt = (case dt of Some d \<Rightarrow> strftime P d | None \<Rightarrow> ustr ''Unknown date'')"

definition sender_label :: "message \<Rightarrow> ustring" where
  \<comment> \<open>line 291: \<open>sender\<close>\<close>
  "sender_label msg =
     (if is_true (is_from_me msg) then ustr ''Me'' else or_else (sender_id msg) (ustr ''Unknown''))"

definition content_of :: "ustring list \<Rightarrow> ustring" where
  \<comment> \<open>line 333: \<open>content\<close>, for a non-empty list of parts\<close>
  "content_of parts = (if length parts > 1 then join_str (10 # ustr ''    '') parts else hd parts)"

definition process_message ::
  "('dt, 'z) platform_scheme \<Rightarrow> connection \<Rightarrow> path \<Rightarrow> message \<Rightarrow> export_state \<Rightarrow>
   exn + export_state" where
  \<comment> \<open>the body of the loop over the messages, lines 287 to 334\<close>
  "process_message P conn att_dir msg st0 =
     (let st = st0\<lparr>total_messages := total_messages st0 + 1\<rparr>
      in case apple_timestamp_to_datetime P (message_date msg) of
           Inl e \<Rightarrow> Inl e
         | Inr dt \<Rightarrow>
             let timestamp = timestamp_label P dt;
                 sender = sender_label msg;
                 reaction = format_reaction (associated_message_type msg)
             in if truthy reaction
                then Inr (st\<lparr>lines := lines st @
                       [ustr ''['' @ timestamp @ ustr ''] '' @ sender @ ustr '' '' @
                        or_else reaction [] @ ustr '' '' @ reaction_target msg]\<rparr>)
                else
                  let text = or_else (msg_text msg) [];
                      attachments = get_attachments_for_message conn (message_id msg);
                      (attachment_notes, st) = attachment_loop P att_dir attachments [] st;
                      parts = message_parts text attachment_notes
                  in if parts = [] then Inr st
                     else
                       let content = content_of parts
                       in Inr (st\<lparr>lines := lines st @
                            [ustr ''['' @ timestamp @ ustr ''] '' @ sender @ ustr '': '' @ content]\<rparr>))"

fun message_loop ::
  "('dt, 'z) platform_scheme \<Rightarrow> connection \<Rightarrow> path \<Rightarrow> message list \<Rightarrow> export_state \<Rightarrow>
   exn + export_state" where
  "message_loop P conn att_dir [] st = Inr st"
| "message_loop P conn att_dir (msg # msgs) st =
     (case process_message P conn att_dir msg st of
        Inl e \<Rightarrow> Inl e
      | Inr st' \<Rightarrow> message_loop P conn att_dir msgs st')"

definition filter_skips :: "('dt, 'z) platform_scheme \<Rightarrow> ustring option \<Rightarrow> chat \<Rightarrow> bool" where
  \<comment> \<open>lines 255 to 262: whether the contact filter makes the loop \<open>continue\<close>\<close>
  "filter_skips P contact_filter c =
     (if truthy contact_filter
      then (let identifiers = [or_else (chat_identifier c) [], or_else (participants c) [],
                               or_else (display_name c) []]
            in \<not> list_ex (\<lambda>ident. str_in (lower P (or_else contact_filter [])) (lower P ident))
                   identifiers)
      else False)"

definition header :: "chat \<Rightarrow> ustring \<Rightarrow> message list \<Rightarrow> ustring list" where
  \<comment> \<open>lines 276 to 284\<close>
  "header c chat_name messages =
     (let is_group = (chat_style c = Some 43);
          chat_type = (if is_group then ustr ''Group Chat'' else ustr ''Conversation'')
      in [replicate 60 61, chat_type @ ustr '': '' @ chat_name, replicate 60 61,
          ustr ''Messages: '' @ str_nat (length messages), []])"

definition export_chat ::
  "('dt, 'z) platform_scheme \<Rightarrow> connection \<Rightarrow> path \<Rightarrow> ustring option \<Rightarrow> chat \<Rightarrow> export_state \<Rightarrow>
   exn + export_state" where
  \<comment> \<open>the body of the loop over the chats, lines 252 to 344\<close>
  "export_chat P conn readable_dir contact_filter c st =
     (let chat_name = get_chat_display_name c
      in if filter_skips P contact_filter c then Inr st
         else
           let messages = get_messages_for_chat conn (chat_id c)
           in if messages = [] then Inr st
              else
                let safe_name = sanitize_filename (Some chat_name);
                    chat_dir = join readable_dir safe_name;
                    att_dir = join chat_dir (ustr ''attachments'');
                    st = st\<lparr>exported_chats := exported_chats st + 1,
                            files := makedirs P chat_dir (files st),
                            lines := header c chat_name messages\<rparr>
                in case message_loop P conn att_dir messages st of
                     Inl e \<Rightarrow> Inl e
                   | Inr st \<Rightarrow>
                       Inr (st\<lparr>files := write_text P (join chat_dir (ustr ''chat.txt''))
                                       (join_str [10] (lines st) @ [10]) (files st)\<rparr>))"

fun chat_loop ::
  "('dt, 'z) platform_scheme \<Rightarrow> connection \<Rightarrow> path \<Rightarrow> ustring option \<Rightarrow> chat list \<Rightarrow>
   export_state \<Rightarrow> exn + export_state" where
  "chat_loop P conn readable_dir contact_filter [] st = Inr st"
| "chat_loop P conn readable_dir contact_filter (c # cs) st =
     (case export_chat P conn readable_dir contact_filter c st of
        Inl e \<Rightarrow> Inl e
      | Inr st' \<Rightarrow> chat_loop P conn readable_dir contact_filter cs st')"

definition do_readable_export ::
  "('dt, 'z) platform_scheme \<Rightarrow> connection \<Rightarrow> path \<Rightarrow> ustring option \<Rightarrow> filesystem \<Rightarrow>
   exn + export_state" where
  "do_readable_export P conn dest_dir contact_filter fs =
     (let readable_dir = join dest_dir (ustr ''readable'')
      in chat_loop P conn readable_dir contact_filter (get_chats conn)
           \<lparr>files = makedirs P readable_dir fs, total_messages = 0,
            total_attachments_copied = 0, exported_chats = 0, lines = []\<rparr>)"

section \<open>A platform for evaluation\<close>

text \<open>
  One platform on which the definitions are run at concrete inputs: the local time zone is
  UTC, a calendar timestamp is its number of seconds since the Unix epoch (within the years
  1 to 9999 that \<open>datetime\<close> supports) and is printed as that number, \<open>lower\<close> is lower-casing
  of ASCII letters, the home directory is \<open>/Users/me\<close>, and every copy succeeds and creates
  its destination.
\<close>

definition sample_platform :: "real platform" where
  "sample_platform =
     \<lparr>APPLE_EPOCH_OFFSET = 978307200,
      fromtimestamp = (\<lambda>s. if - 62135596800 \<le> s \<and> s < 253402300800 then Inr s else Inl ValueError),
      strftime = (\<lambda>d. str_int \<lfloor>d\<rfloor>),
      lower = map (\<lambda>c. if 65 \<le> c \<and> c \<le> 90 then c + 32 else c),
      expanduser = (\<lambda>p. ustr ''/Users/me'' @ tl p),
      copy2 = (\<lambda>src dst fs. (True, finsert dst fs)),
      makedirs = (\<lambda>d fs. finsert d fs),
      write_text = (\<lambda>p content fs. finsert p fs)\<rparr>"

text \<open>
  The same platform with the resolution of \<open>datetime\<close>: a calendar timestamp is a whole
  number of microseconds, so that instants within one microsecond are not told apart.
\<close>

definition microsecond_platform :: "real platform" where
  "microsecond_platform =
     sample_platform
       \<lparr>fromtimestamp :=
          (\<lambda>s. if - 62135596800 \<le> s \<and> s < 253402300800
               then Inr (real_of_int \<lfloor>s * 1000000\<rfloor> / 1000000) else Inl ValueError)\<rparr>"

section \<open>Scenario A\<close>

text \<open>
  One conversation with three messages a minute apart from 2023-01-01 00:00:00 UTC: a
  received text, the user's "Liked" reaction, whose row has no text, and a received message
  that consists of one attachment.
\<close>

definition scenario_chat :: chat where
  "scenario_chat =
     \<lparr>chat_id = 1, chat_identifier = Some (ustr ''+15550100''), display_name = None,
      chat_style = Some 45, participants = Some (ustr ''+15550100'')\<rparr>"

definition text_message :: message where
  "text_message =
     \<lparr>message_id = 1, msg_text = Some (ustr ''Hello''), message_date = Some 694224000000000000,
      is_from_me = Some 0, associated_message_type = Some 0,
      sender_id = Some (ustr ''+15550100'')\<rparr>"

definition liked_reaction :: message where
  "liked_reaction =
     \<lparr>message_id = 2, msg_text = None, message_date = Some 694224060000000000,
      is_from_me = Some 1, associated_message_type = Some 2001, sender_id = None\<rparr>"

definition attachment_message :: message where
  "attachment_message =
     \<lparr>message_id = 3, msg_text = Some [OBJ], message_date = Some 694224120000000000,
      is_from_me = Some 0, associated_message_type = Some 0,
      sender_id = Some (ustr ''+15550100'')\<rparr>"

definition image_attachment :: attachment where
  "image_attachment =
     \<lparr>attachment_id = 1, filename = Some (ustr ''~/Library/a/IMG.jpg''),
      transfer_name = Some (ustr ''IMG.jpg'')\<rparr>"

definition scenario_a :: connection where
  "scenario_a =
     \<lparr>get_chats = [scenario_chat],
      get_messages_for_chat =
        (\<lambda>i. if i = 1 then [text_message, liked_reaction, attachment_message] else []),
      get_attachments_for_message = (\<lambda>i. if i = 3 then [image_attachment] else [])\<rparr>"

section \<open>Scenario B\<close>

text \<open>
  One conversation with Ann, whose only message mentions a telephone number in its body.
\<close>

definition scenario_b_chat :: chat where
  "scenario_b_chat =
     \<lparr>chat_id = 2, chat_identifier = Some (ustr ''ann@example.com''),
      display_name = Some (ustr ''Ann''), chat_style = Some 45,
      participants = Some (ustr ''ann@example.com'')\<rparr>"

definition scenario_b :: connection where
  "scenario_b =
     \<lparr>get_chats = [scenario_b_chat],
      get_messages_for_chat =
        (\<lambda>i. if i = 2
             then [\<lparr>message_id = 4, msg_text = Some (ustr ''Call +15550100''),
                    message_date = Some 694224000000000000, is_from_me = Some 0,
                    associated_message_type = Some 0,
                    sender_id = Some (ustr ''ann@example.com'')\<rparr>]
             else []),
      get_attachments_for_message = (\<lambda>_. [])\<rparr>"

section \<open>Sanitized names\<close>

text \<open>
  The shape of the names that the sanitizer returns, for the proofs: in a \<open>spaced\<close> string
  every character of the class \<open>[_\s]\<close> is a space that no character of the class follows;
  a \<open>tidy\<close> string is non-empty and spaced, has no invalid character, neither begins nor
  ends with whitespace and has at most 100 characters.
\<close>

fun spaced :: "ustring \<Rightarrow> bool" where
  "spaced [] = True"
| "spaced (c # cs) =
     ((run_char c \<longrightarrow> c = 32 \<and> (case cs of [] \<Rightarrow> True | d # _ \<Rightarrow> \<not> run_char d)) \<and> spaced cs)"

definition tidy :: "ustring \<Rightarrow> bool" where
  "tidy r \<longleftrightarrow> r \<noteq> [] \<and> (\<forall>c \<in> set r. \<not> invalid_char c) \<and> spaced r \<and>
     \<not> isspace (hd r) \<and> \<not> isspace (last r) \<and> length r \<le> 100"

section \<open>Timestamp normalizer: the cases\<close>

text \<open>
  C1. The normalizer returns \<open>None\<close> exactly when its input is \<open>None\<close> or \<open>0\<close>. A non-zero
  input above \<open>10 ^ 12\<close> is divided by \<open>10 ^ 9\<close> and the source-epoch offset is added; a
  non-zero input of at most \<open>10 ^ 12\<close> gets the offset with no division. In both cases the
  outcome is that of the library's conversion of this value to a calendar timestamp.
\<close>

theorem timestamp_normalizer_cases:
  "(apple_timestamp_to_datetime P timestamp = Inr None \<longleftrightarrow> timestamp = None \<or> timestamp = Some 0) \<and>
   (\<forall>t. t \<noteq> 0 \<and> 10 ^ 12 < t \<longrightarrow>
      apple_timestamp_to_datetime P (Some t) =
        map_sum id Some (fromtimestamp P (real_of_int t / 10 ^ 9 + APPLE_EPOCH_OFFSET P))) \<and>
   (\<forall>t. t \<noteq> 0 \<and> t \<le> 10 ^ 12 \<longrightarrow>
      apple_timestamp_to_datetime P (Some t) =
        map_sum id Some (fromtimestamp P (real_of_int t + APPLE_EPOCH_OFFSET P)))"
proof (intro conjI allI impI)
  show "apple_timestamp_to_datetime P timestamp = Inr None \<longleftrightarrow> timestamp = None \<or> timestamp = Some 0"
    by (auto simp: apple_timestamp_to_datetime_def Let_def split: option.splits sum.splits)
next
  fix t :: int assume t: "t \<noteq> 0 \<and> 10 ^ 12 < t"
  then have "10 ^ 12 < real_of_int t" by (metis of_int_less_iff of_int_numeral of_int_power)
  with t show "apple_timestamp_to_datetime P (Some t) =
        map_sum id Some (fromtimestamp P (real_of_int t / 10 ^ 9 + APPLE_EPOCH_OFFSET P))"
    by (simp add: apple_timestamp_to_datetime_def Let_def split: sum.splits)
next
  fix t :: int assume t: "t \<noteq> 0 \<and> t \<le> 10 ^ 12"
  then have "real_of_int t \<le> 10 ^ 12" by (metis of_int_le_iff of_int_numeral of_int_power)
  then have "\<not> 10 ^ 12 < real_of_int t" "\<not> 10 ^ 15 < real_of_int t" by simp_all
  with t show "apple_timestamp_to_datetime P (Some t) =
        map_sum id Some (fromtimestamp P (real_of_int t + APPLE_EPOCH_OFFSET P))"
    by (simp add: apple_timestamp_to_datetime_def Let_def split: sum.splits)
qed

text \<open>
  At \<open>None\<close> and \<open>0\<close>; at 694224000000000000 ns, which is 2023-01-01 00:00:00 UTC; at
  300000000 s, taken as seconds; and at \<open>10 ^ 12\<close>, not divided, where the library's
  conversion raises.
\<close>

theorem timestamp_normalizer_cases_witness:
  "apple_timestamp_to_datetime sample_platform None = Inr None \<and>
   apple_timestamp_to_datetime sample_platform (Some 0) = Inr None \<and>
   apple_timestamp_to_datetime sample_platform (Some 694224000000000000) = Inr (Some 1672531200) \<and>
   apple_timestamp_to_datetime sample_platform (Some 300000000) = Inr (Some 1278307200) \<and>
   apple_timestamp_to_datetime sample_platform (Some 1000000000000) = Inl ValueError"
  using timestamp_normalizer_cases [of sample_platform None]
    timestamp_normalizer_cases [of sample_platform "Some 0"]
  by (simp add: sample_platform_def)

section \<open>Timestamp normalizer: determinism without monotonicity\<close>

text \<open>
  C8. The result of the normalizer is determined by its input, the library's conversion and
  the offset. It is not monotonic: where the library's conversion converts the two instants
  2000 s and 1000.000000001 s after the source epoch and keeps the order of instants that
  are at least one second apart (as a conversion of microsecond resolution does), the
  inputs \<open>2000 < 10 ^ 12 + 1\<close> lie on the two sides of the threshold \<open>10 ^ 12\<close> and their
  calendar timestamps are in the opposite order.
\<close>

theorem normalization_deterministic_not_monotonic:
  fixes P :: "('dt::order, 'z) platform_scheme"
  assumes d1: "fromtimestamp P (2000 + APPLE_EPOCH_OFFSET P) = Inr d1"
    and d2: "fromtimestamp P ((10 ^ 12 + 1) / 10 ^ 9 + APPLE_EPOCH_OFFSET P) = Inr d2"
    and apart: "\<And>a b x y. a + 1 \<le> b \<Longrightarrow> fromtimestamp P a = Inr x \<Longrightarrow>
                  fromtimestamp P b = Inr y \<Longrightarrow> x < y"
  shows "(\<forall>P' :: ('dt, 'y) platform_scheme.
            fromtimestamp P' = fromtimestamp P \<and> APPLE_EPOCH_OFFSET P' = APPLE_EPOCH_OFFSET P \<longrightarrow>
            (\<forall>t. apple_timestamp_to_datetime P' t = apple_timestamp_to_datetime P t)) \<and>
         (\<exists>t1 t2 n1 n2. t1 \<noteq> 0 \<and> t2 \<noteq> 0 \<and> t1 < t2 \<and> t1 \<le> 10 ^ 12 \<and> 10 ^ 12 < t2 \<and>
            apple_timestamp_to_datetime P (Some t1) = Inr (Some n1) \<and>
            apple_timestamp_to_datetime P (Some t2) = Inr (Some n2) \<and> n2 < n1)"
proof
  show "\<forall>P' :: ('dt, 'y) platform_scheme.
            fromtimestamp P' = fromtimestamp P \<and> APPLE_EPOCH_OFFSET P' = APPLE_EPOCH_OFFSET P \<longrightarrow>
            (\<forall>t. apple_timestamp_to_datetime P' t = apple_timestamp_to_datetime P t)"
    by (auto simp: apple_timestamp_to_datetime_def split: option.split)
next
  have a1: "apple_timestamp_to_datetime P (Some 2000) = Inr (Some d1)"
    using d1 by (simp add: apple_timestamp_to_datetime_def)
  have a2: "apple_timestamp_to_datetime P (Some (10 ^ 12 + 1)) = Inr (Some d2)"
    using d2 by (simp add: apple_timestamp_to_datetime_def)
  have "((10 ^ 12 + 1) / 10 ^ 9 + APPLE_EPOCH_OFFSET P) + 1 \<le> 2000 + APPLE_EPOCH_OFFSET P"
    by simp
  from apart [OF this d2 d1] have "d2 < d1" .
  with a1 a2 show "\<exists>t1 t2 n1 n2. t1 \<noteq> 0 \<and> t2 \<noteq> 0 \<and> t1 < t2 \<and> t1 \<le> 10 ^ 12 \<and> 10 ^ 12 < t2 \<and>
            apple_timestamp_to_datetime P (Some t1) = Inr (Some n1) \<and>
            apple_timestamp_to_datetime P (Some t2) = Inr (Some n2) \<and> n2 < n1"
    by (intro exI [of _ 2000] exI [of _ "10 ^ 12 + 1"] exI [of _ d1] exI [of _ d2]) simp
qed

text \<open>
  On the platform with microsecond resolution, which maps distinct instants of one
  microsecond to one calendar timestamp: the inputs 2000 and \<open>10 ^ 12 + 1\<close> become the
  timestamps 978309200 and 978308200.
\<close>

theorem normalization_deterministic_not_monotonic_witness:
  "\<exists>t1 t2 n1 n2. t1 \<noteq> 0 \<and> t2 \<noteq> 0 \<and> t1 < t2 \<and> t1 \<le> 10 ^ 12 \<and> 10 ^ 12 < t2 \<and>
     apple_timestamp_to_datetime microsecond_platform (Some t1) = Inr (Some n1) \<and>
     apple_timestamp_to_datetime microsecond_platform (Some t2) = Inr (Some n2) \<and> n2 < n1"
proof -
  have f1: "\<lfloor>(978309200 :: real) * 1000000\<rfloor> = 978309200000000"
    by simp
  have f2: "\<lfloor>((10 ^ 12 + 1) / 10 ^ 9 + 978307200 :: real) * 1000000\<rfloor> = 978308200000000"
    by (rule floor_unique) simp_all
  have 1: "fromtimestamp microsecond_platform (2000 + APPLE_EPOCH_OFFSET microsecond_platform)
      = Inr 978309200"
    using f1 by (simp add: microsecond_platform_def sample_platform_def)
  have 2: "fromtimestamp microsecond_platform
      ((10 ^ 12 + 1) / 10 ^ 9 + APPLE_EPOCH_OFFSET microsecond_platform) = Inr 978308200"
    using f2 by (simp add: microsecond_platform_def sample_platform_def)
  have 3: "x < y" if "a + 1 \<le> b" "fromtimestamp microsecond_platform a = Inr x"
      "fromtimestamp microsecond_platform b = Inr y" for a b x y
  proof -
    from that(1) have "a * 1000000 + 1000000 \<le> b * 1000000" by simp
    then have "\<lfloor>a * 1000000 + 1000000\<rfloor> \<le> \<lfloor>b * 1000000\<rfloor>" by (rule floor_mono)
    then have "\<lfloor>a * 1000000\<rfloor> < \<lfloor>b * 1000000\<rfloor>" by simp
    then have "real_of_int \<lfloor>a * 1000000\<rfloor> / 1000000 < real_of_int \<lfloor>b * 1000000\<rfloor> / 1000000"
      by (simp add: divide_strict_right_mono)
    with that(2,3) show ?thesis
      by (simp add: microsecond_platform_def split: if_splits)
  qed
  have "(\<forall>P' :: (real, unit) platform_scheme.
            fromtimestamp P' = fromtimestamp microsecond_platform \<and>
            APPLE_EPOCH_OFFSET P' = APPLE_EPOCH_OFFSET microsecond_platform \<longrightarrow>
            (\<forall>t. apple_timestamp_to_datetime P' t =
                 apple_timestamp_to_datetime microsecond_platform t)) \<and>
         (\<exists>t1 t2 n1 n2. t1 \<noteq> 0 \<and> t2 \<noteq> 0 \<and> t1 < t2 \<and> t1 \<le> 10 ^ 12 \<and> 10 ^ 12 < t2 \<and>
            apple_timestamp_to_datetime microsecond_platform (Some t1) = Inr (Some n1) \<and>
            apple_timestamp_to_datetime microsecond_platform (Some t2) = Inr (Some n2) \<and> n2 < n1)"
    by (rule normalization_deterministic_not_monotonic [OF 1 2]) (rule 3)
  then show ?thesis by (rule conjunct2)
qed

section \<open>Reactions: the target description\<close>

lemma reaction_not_empty: "format_reaction a = Some r \<Longrightarrow> r \<noteq> []"
  by (auto simp: format_reaction_def reactions_def ustr_def split: option.splits if_splits)

text \<open>
  C2, as stated, fails: a "Liked" reaction whose body is the placeholder followed by
  \<open>Nice\<close> has a body that is neither absent nor equal to the placeholder, and its target
  description is \<open>a message\<close>, not the body.
\<close>

theorem reaction_target_counterexample:
  "format_reaction (associated_message_type
      \<lparr>message_id = 2, msg_text = Some (OBJ # ustr ''Nice''), message_date = None,
       is_from_me = Some 1, associated_message_type = Some 2001, sender_id = None\<rparr>)
     = Some (ustr ''Liked'') \<and>
   Some (OBJ # ustr ''Nice'') \<noteq> Some [OBJ] \<and>
   reaction_target
      \<lparr>message_id = 2, msg_text = Some (OBJ # ustr ''Nice''), message_date = None,
       is_from_me = Some 1, associated_message_type = Some 2001, sender_id = None\<rparr>
     = ustr ''a message'' \<and>
   ustr ''a message'' \<noteq> OBJ # ustr ''Nice''"
  by (simp add: format_reaction_def reactions_def reaction_target_def or_else_def startswith_def
      ustr_def OBJ_def)

text \<open>
  C2, amended. For every message that the classifier identifies as a reaction (and whose
  timestamp the library converts), the emitted line is
  \<open>[timestamp] sender reaction target\<close>, where the target description is \<open>a message\<close>
  when the body is absent, empty or begins with the placeholder, and the body verbatim
  otherwise.
\<close>

theorem reaction_line_target:
  assumes r: "format_reaction (associated_message_type msg) = Some r"
    and dt: "apple_timestamp_to_datetime P (message_date msg) = Inr dt"
  shows "process_message P conn att_dir msg st =
           Inr (st\<lparr>total_messages := total_messages st + 1,
                   lines := lines st @
                     [ustr ''['' @ timestamp_label P dt @ ustr ''] '' @ sender_label msg @
                      ustr '' '' @ r @ ustr '' '' @ reaction_target msg]\<rparr>) \<and>
         reaction_target msg =
           (case msg_text msg of
              None \<Rightarrow> ustr ''a message''
            | Some body \<Rightarrow> if body = [] \<or> hd body = OBJ then ustr ''a message'' else body)"
proof
  from r have "r \<noteq> []" by (rule reaction_not_empty)
  with r dt show "process_message P conn att_dir msg st =
           Inr (st\<lparr>total_messages := total_messages st + 1,
                   lines := lines st @
                     [ustr ''['' @ timestamp_label P dt @ ustr ''] '' @ sender_label msg @
                      ustr '' '' @ r @ ustr '' '' @ reaction_target msg]\<rparr>)"
    by (simp add: process_message_def Let_def truthy_def or_else_def)
next
  show "reaction_target msg =
           (case msg_text msg of
              None \<Rightarrow> ustr ''a message''
            | Some body \<Rightarrow> if body = [] \<or> hd body = OBJ then ustr ''a message'' else body)"
    by (cases "msg_text msg")
      (auto simp: reaction_target_def or_else_def startswith_def Let_def ustr_def OBJ_def
        prefix_def neq_Nil_conv)
qed

text \<open>
  A "Liked" reaction with the body \<open>Hello\<close>, sent by the user at 2023-01-01 00:00:00 UTC: one
  line, whose target description is the body.
\<close>

theorem reaction_line_target_witness:
  "process_message sample_platform
      \<lparr>get_chats = [], get_messages_for_chat = (\<lambda>_. []), get_attachments_for_message = (\<lambda>_. [])\<rparr>
      (ustr ''out/readable/Ann/attachments'')
      \<lparr>message_id = 2, msg_text = Some (ustr ''Hello''), message_date = Some 694224000000000000,
       is_from_me = Some 1, associated_message_type = Some 2001, sender_id = None\<rparr>
      \<lparr>files = {||}, total_messages = 0, total_attachments_copied = 0, exported_chats = 1, lines = []\<rparr>
    = Inr \<lparr>files = {||}, total_messages = 1, total_attachments_copied = 0, exported_chats = 1,
           lines = [ustr ''[1672531200] Me Liked Hello'']\<rparr>"
proof -
  have r: "format_reaction (associated_message_type
      \<lparr>message_id = 2, msg_text = Some (ustr ''Hello''), message_date = Some 694224000000000000,
       is_from_me = Some 1, associated_message_type = Some 2001, sender_id = None\<rparr>)
      = Some (ustr ''Liked'')"
    by (simp add: format_reaction_def reactions_def)
  have dt: "apple_timestamp_to_datetime sample_platform (message_date
      \<lparr>message_id = 2, msg_text = Some (ustr ''Hello''), message_date = Some 694224000000000000,
       is_from_me = Some 1, associated_message_type = Some 2001, sender_id = None\<rparr>)
      = Inr (Some 1672531200)"
    by (simp add: apple_timestamp_to_datetime_def sample_platform_def)
  have s: "str_int 1672531200 = ustr ''1672531200''"
    by (simp add: str_int_def str_nat.simps digit_def ustr_def)
  have t: "reaction_target
      \<lparr>message_id = 2, msg_text = Some (ustr ''Hello''), message_date = Some 694224000000000000,
       is_from_me = Some 1, associated_message_type = Some 2001, sender_id = None\<rparr> = ustr ''Hello''"
    by (simp add: reaction_target_def or_else_def startswith_def ustr_def OBJ_def)
  have f: "strftime sample_platform 1672531200 = ustr ''1672531200''"
    by (simp add: sample_platform_def) (simp only: s)
  show ?thesis
    unfolding reaction_line_target [OF r dt, THEN conjunct1]
    by (simp add: timestamp_label_def sender_label_def is_true_def t f) (simp add: ustr_def)

qed

section \<open>Attachment materializer: the collision loop\<close>

lemma collision_loop_result:
  "collision_loop fs d b e p k = (p', k') \<Longrightarrow>
     p' |\<notin>| fs \<and>
     (if p |\<in>| fs
      then \<exists>n. k \<le> n \<and> k' = Suc n \<and> p' = candidate d b e n \<and>
             (\<forall>m. k \<le> m \<and> m < n \<longrightarrow> candidate d b e m |\<in>| fs)
      else p' = p \<and> k' = k)"
proof (induction fs d b e p k rule: collision_loop.induct)
  case (1 fs d b e p k)
  show ?case
  proof (cases "p |\<in>| fs")
    case False
    with "1.prems" show ?thesis by (simp add: collision_loop.simps)
  next
    case True
    with "1.prems" have rec: "collision_loop fs d b e (candidate d b e k) (k + 1) = (p', k')"
      by (simp add: collision_loop.simps)
    note IH = "1.IH" [OF True rec]
    show ?thesis
    proof (cases "candidate d b e k |\<in>| fs")
      case False
      with IH True show ?thesis by auto
    next
      case ck: True
      with IH obtain n where n: "k + 1 \<le> n" "k' = Suc n" "p' = candidate d b e n"
        "\<forall>m. k + 1 \<le> m \<and> m < n \<longrightarrow> candidate d b e m |\<in>| fs" by auto
      have "\<forall>m. k \<le> m \<and> m < n \<longrightarrow> candidate d b e m |\<in>| fs"
      proof (intro allI impI)
        fix m assume "k \<le> m \<and> m < n"
        then show "candidate d b e m |\<in>| fs"
          using ck n(4) by (cases "m = k") auto
      qed
      with n IH True show ?thesis by auto
    qed
  qed
qed

lemma splitext_append: "splitext p = (b, e) \<Longrightarrow> b @ e = p"
  by (auto simp: splitext_def Let_def split: if_splits)

lemma choose_dest_free: "join d (dest_name_of att src) |\<notin>| fs \<Longrightarrow>
    choose_dest fs d att src = join d (dest_name_of att src)"
  by (simp add: choose_dest_def Let_def collision_loop.simps split: prod.splits)

lemma choose_dest_taken:
  assumes "join d (dest_name_of att src) |\<in>| fs" and "splitext (dest_name_of att src) = (base, ext)"
  shows "\<exists>n. 1 \<le> n \<and> choose_dest fs d att src = candidate d base ext n \<and>
           candidate d base ext n |\<notin>| fs \<and>
           (\<forall>m. 1 \<le> m \<and> m < n \<longrightarrow> candidate d base ext m |\<in>| fs)"
proof -
  obtain p' k' where r: "collision_loop fs d base ext (join d (dest_name_of att src)) 1 = (p', k')"
    by (cases "collision_loop fs d base ext (join d (dest_name_of att src)) 1")
  from collision_loop_result [OF r] assms(1)
  obtain n where n: "1 \<le> n" "p' = candidate d base ext n" "p' |\<notin>| fs"
      "\<forall>m. 1 \<le> m \<and> m < n \<longrightarrow> candidate d base ext m |\<in>| fs"
    by auto
  have "choose_dest fs d att src = p'"
    using assms(2) r by (simp add: choose_dest_def Let_def)
  with n show ?thesis by blast
qed

lemma cand_eval:
  "candidate (ustr ''d'') (ustr ''a'') (ustr ''.txt'') 1 = ustr ''d/a_1.txt''"
  "candidate (ustr ''d'') (ustr ''a'') (ustr ''.txt'') 2 = ustr ''d/a_2.txt''"
  by (simp_all add: candidate_def join_def startswith_def str_nat.simps digit_def ustr_def)

text \<open>
  C10. The collision loop is a total function of the finite set of existing paths. When the
  preferred destination is free it returns at once; when it exists there is a least counter
  \<open>n \<ge> 1\<close> whose candidate name is free, and the loop returns this candidate after \<open>n\<close>
  iterations, with the counter at \<open>n + 1\<close>.
\<close>

theorem collision_loop_returns_least_free:
  "(dest_path |\<notin>| fs \<longrightarrow> collision_loop fs dest_dir base ext dest_path 1 = (dest_path, 1)) \<and>
   (dest_path |\<in>| fs \<longrightarrow>
      (\<exists>n. 1 \<le> n \<and> candidate dest_dir base ext n |\<notin>| fs \<and>
         (\<forall>m. 1 \<le> m \<and> m < n \<longrightarrow> candidate dest_dir base ext m |\<in>| fs) \<and>
         collision_loop fs dest_dir base ext dest_path 1 = (candidate dest_dir base ext n, Suc n)))"
proof (intro conjI impI)
  assume "dest_path |\<notin>| fs"
  then show "collision_loop fs dest_dir base ext dest_path 1 = (dest_path, 1)"
    by (simp add: collision_loop.simps)
next
  assume ex: "dest_path |\<in>| fs"
  obtain p' k' where r: "collision_loop fs dest_dir base ext dest_path 1 = (p', k')"
    by (cases "collision_loop fs dest_dir base ext dest_path 1")
  from collision_loop_result [OF r] ex r
  show "\<exists>n. 1 \<le> n \<and> candidate dest_dir base ext n |\<notin>| fs \<and>
         (\<forall>m. 1 \<le> m \<and> m < n \<longrightarrow> candidate dest_dir base ext m |\<in>| fs) \<and>
         collision_loop fs dest_dir base ext dest_path 1 = (candidate dest_dir base ext n, Suc n)"
    by auto
qed

text \<open>
  In a directory that holds \<open>a.txt\<close> and \<open>a_1.txt\<close> the loop returns \<open>a_2.txt\<close> after two
  iterations.
\<close>

theorem collision_loop_returns_least_free_witness:
  "collision_loop {|ustr ''d/a.txt'', ustr ''d/a_1.txt''|} (ustr ''d'') (ustr ''a'') (ustr ''.txt'')
     (ustr ''d/a.txt'') 1 = (ustr ''d/a_2.txt'', 3)"
proof -
  let ?fs = "{|ustr ''d/a.txt'', ustr ''d/a_1.txt''|}"
  let ?c = "candidate (ustr ''d'') (ustr ''a'') (ustr ''.txt'')"
  have in1: "?c 1 |\<in>| ?fs" and out2: "?c 2 |\<notin>| ?fs"
    unfolding cand_eval by (simp_all add: ustr_def)
  have "ustr ''d/a.txt'' |\<in>| ?fs" by simp
  with collision_loop_returns_least_free [of "ustr ''d/a.txt''" ?fs "ustr ''d''" "ustr ''a''" "ustr ''.txt''"]
  obtain n where n: "1 \<le> n" "?c n |\<notin>| ?fs" "\<forall>m. 1 \<le> m \<and> m < n \<longrightarrow> ?c m |\<in>| ?fs"
    "collision_loop ?fs (ustr ''d'') (ustr ''a'') (ustr ''.txt'') (ustr ''d/a.txt'') 1 = (?c n, Suc n)"
    by blast
  have "n \<noteq> 1" using n(2) in1 by auto
  moreover have "\<not> 2 < n"
  proof
    assume "2 < n"
    with n(3) have "?c 2 |\<in>| ?fs" by (simp del: finsert_iff)
    with out2 show False by contradiction
  qed
  ultimately have "n = 2" using n(1) by simp
  with n(4) show ?thesis by (simp add: cand_eval)
qed

section \<open>Attachment materializer: the collision policy\<close>

lemma candidate_neq_join: "candidate d b e n \<noteq> join d (b @ e)"
proof
  assume "candidate d b e n = join d (b @ e)"
  then have "length (candidate d b e n) = length (join d (b @ e))" by simp
  then show False
    by (cases b) (auto simp: candidate_def join_def startswith_def str_nat_not_Nil split: if_splits)
qed

lemma str_nat_1: "str_nat 1 = [49]"
  by (subst str_nat.simps) (simp add: digit_def)

lemma copy_attachment_file_success:
  assumes "truthy (filename att)" and "resolve_source P att |\<in>| fs"
    and "copy2 P (resolve_source P att) (choose_dest fs d att (resolve_source P att)) fs = (True, fs')"
  shows "copy_attachment_file P att d fs =
           (Some (basename (choose_dest fs d att (resolve_source P att))), fs')"
  using assms by (simp add: copy_attachment_file_def Let_def)

text \<open>
  C6. When the preferred destination exists, the chosen destination is the directory joined
  with \<open>base_n ext\<close>, where \<open>base\<close> and \<open>ext\<close> split the preferred name at its extension and
  \<open>n \<ge> 1\<close> is the first counter whose name is free. In particular, two attachments with
  the same destination name, materialized one after the other into a directory that holds
  neither the name nor its \<open>_1\<close> variant, by copies that succeed and create their
  destinations, give two distinct files, the second with \<open>_1\<close> before the extension.
\<close>

theorem attachment_collision_policy:
  "(\<forall>base ext. join d (dest_name_of att src) |\<in>| fs \<and> splitext (dest_name_of att src) = (base, ext) \<longrightarrow>
      base @ ext = dest_name_of att src \<and>
      (\<exists>n. 1 \<le> n \<and>
         choose_dest fs d att src = join d (base @ ustr ''_'' @ str_nat n @ ext) \<and>
         join d (base @ ustr ''_'' @ str_nat n @ ext) |\<notin>| fs \<and>
         (\<forall>m. 1 \<le> m \<and> m < n \<longrightarrow> join d (base @ ustr ''_'' @ str_nat m @ ext) |\<in>| fs))) \<and>
   (\<forall>a1 a2 name base ext.
      truthy (filename a1) \<and> truthy (filename a2) \<and>
      resolve_source P a1 |\<in>| fs \<and> resolve_source P a2 |\<in>| fs \<and>
      dest_name_of a1 (resolve_source P a1) = name \<and> dest_name_of a2 (resolve_source P a2) = name \<and>
      splitext name = (base, ext) \<and>
      join d name |\<notin>| fs \<and> join d (base @ ustr ''_1'' @ ext) |\<notin>| fs \<and>
      copy2 P (resolve_source P a1) (join d name) fs = (True, finsert (join d name) fs) \<and>
      copy2 P (resolve_source P a2) (join d (base @ ustr ''_1'' @ ext)) (finsert (join d name) fs) =
        (True, finsert (join d (base @ ustr ''_1'' @ ext)) (finsert (join d name) fs)) \<longrightarrow>
      copy_attachment_file P a1 d fs = (Some (basename (join d name)), finsert (join d name) fs) \<and>
      copy_attachment_file P a2 d (finsert (join d name) fs) =
        (Some (basename (join d (base @ ustr ''_1'' @ ext))),
         finsert (join d (base @ ustr ''_1'' @ ext)) (finsert (join d name) fs)) \<and>
      join d name \<noteq> join d (base @ ustr ''_1'' @ ext))"
proof (intro conjI allI impI)
  fix base ext
  assume a: "join d (dest_name_of att src) |\<in>| fs \<and> splitext (dest_name_of att src) = (base, ext)"
  then show "base @ ext = dest_name_of att src" by (simp add: splitext_append)
  from a choose_dest_taken [of d att src fs base ext]
  show "\<exists>n. 1 \<le> n \<and>
         choose_dest fs d att src = join d (base @ ustr ''_'' @ str_nat n @ ext) \<and>
         join d (base @ ustr ''_'' @ str_nat n @ ext) |\<notin>| fs \<and>
         (\<forall>m. 1 \<le> m \<and> m < n \<longrightarrow> join d (base @ ustr ''_'' @ str_nat m @ ext) |\<in>| fs)"
    by (simp add: candidate_def ustr_def)
next
  fix a1 a2 name base ext
  assume h: "truthy (filename a1) \<and> truthy (filename a2) \<and>
      resolve_source P a1 |\<in>| fs \<and> resolve_source P a2 |\<in>| fs \<and>
      dest_name_of a1 (resolve_source P a1) = name \<and> dest_name_of a2 (resolve_source P a2) = name \<and>
      splitext name = (base, ext) \<and>
      join d name |\<notin>| fs \<and> join d (base @ ustr ''_1'' @ ext) |\<notin>| fs \<and>
      copy2 P (resolve_source P a1) (join d name) fs = (True, finsert (join d name) fs) \<and>
      copy2 P (resolve_source P a2) (join d (base @ ustr ''_1'' @ ext)) (finsert (join d name) fs) =
        (True, finsert (join d (base @ ustr ''_1'' @ ext)) (finsert (join d name) fs))"
  let ?p1 = "join d name" and ?p2 = "join d (base @ ustr ''_1'' @ ext)"
  have c1: "candidate d base ext 1 = ?p2"
    unfolding candidate_def str_nat_1 by (simp add: ustr_def)
  have be: "base @ ext = name" using h by (simp add: splitext_append)
  from candidate_neq_join [of d base ext 1] c1 be have ne: "?p1 \<noteq> ?p2" by simp
  have d1: "choose_dest fs d a1 (resolve_source P a1) = ?p1"
    using h choose_dest_free [of d a1 "resolve_source P a1" fs] by simp
  let ?fs1 = "finsert ?p1 fs"
  have "\<exists>n. 1 \<le> n \<and> choose_dest ?fs1 d a2 (resolve_source P a2) = candidate d base ext n \<and>
           candidate d base ext n |\<notin>| ?fs1 \<and>
           (\<forall>m. 1 \<le> m \<and> m < n \<longrightarrow> candidate d base ext m |\<in>| ?fs1)"
    using h by (intro choose_dest_taken) simp_all
  then obtain n where n: "1 \<le> n" "choose_dest ?fs1 d a2 (resolve_source P a2) = candidate d base ext n"
    "\<forall>m. 1 \<le> m \<and> m < n \<longrightarrow> candidate d base ext m |\<in>| ?fs1" by blast
  have "n = 1"
  proof (rule ccontr)
    assume "n \<noteq> 1"
    with n(1) have "1 < n" by simp
    with n(3) have "candidate d base ext 1 |\<in>| ?fs1" by simp
    with c1 ne h show False by auto
  qed
  with n c1 have d2: "choose_dest ?fs1 d a2 (resolve_source P a2) = ?p2" by simp
  show "copy_attachment_file P a1 d fs = (Some (basename ?p1), ?fs1)"
    using h d1 by (intro copy_attachment_file_success [THEN trans]) simp_all
  show "copy_attachment_file P a2 d ?fs1 = (Some (basename ?p2), finsert ?p2 ?fs1)"
    using h d2 by (intro copy_attachment_file_success [THEN trans]) simp_all
  show "?p1 \<noteq> ?p2" by (rule ne)
qed

text \<open>
  Two attachments named \<open>IMG.jpg\<close> from two folders of the library, copied into \<open>out/att\<close>:
  the files \<open>IMG.jpg\<close> and \<open>IMG_1.jpg\<close>.
\<close>

theorem attachment_collision_policy_witness:
  "copy_attachment_file sample_platform
      \<lparr>attachment_id = 1, filename = Some (ustr ''~/Library/a/IMG.jpg''),
       transfer_name = Some (ustr ''IMG.jpg'')\<rparr>
      (ustr ''out/att'')
      {|ustr ''/Users/me/Library/a/IMG.jpg'', ustr ''/Users/me/Library/b/IMG.jpg''|}
    = (Some (ustr ''IMG.jpg''),
       {|ustr ''out/att/IMG.jpg'',
         ustr ''/Users/me/Library/a/IMG.jpg'', ustr ''/Users/me/Library/b/IMG.jpg''|}) \<and>
   copy_attachment_file sample_platform
      \<lparr>attachment_id = 2, filename = Some (ustr ''~/Library/b/IMG.jpg''),
       transfer_name = Some (ustr ''IMG.jpg'')\<rparr>
      (ustr ''out/att'')
      {|ustr ''out/att/IMG.jpg'',
        ustr ''/Users/me/Library/a/IMG.jpg'', ustr ''/Users/me/Library/b/IMG.jpg''|}
    = (Some (ustr ''IMG_1.jpg''),
       {|ustr ''out/att/IMG_1.jpg'', ustr ''out/att/IMG.jpg'',
         ustr ''/Users/me/Library/a/IMG.jpg'', ustr ''/Users/me/Library/b/IMG.jpg''|})"
proof -
  let ?a1 = "\<lparr>attachment_id = 1, filename = Some (ustr ''~/Library/a/IMG.jpg''),
       transfer_name = Some (ustr ''IMG.jpg'')\<rparr>"
  let ?a2 = "\<lparr>attachment_id = 2, filename = Some (ustr ''~/Library/b/IMG.jpg''),
       transfer_name = Some (ustr ''IMG.jpg'')\<rparr>"
  let ?fs = "{|ustr ''/Users/me/Library/a/IMG.jpg'', ustr ''/Users/me/Library/b/IMG.jpg''|}"
  let ?d = "ustr ''out/att''"
  have s1: "resolve_source sample_platform ?a1 = ustr ''/Users/me/Library/a/IMG.jpg''"
    and s2: "resolve_source sample_platform ?a2 = ustr ''/Users/me/Library/b/IMG.jpg''"
    by (simp_all add: resolve_source_def sample_platform_def or_else_def startswith_def ustr_def)
  have n1: "dest_name_of ?a1 src = ustr ''IMG.jpg''"
    and n2: "dest_name_of ?a2 src = ustr ''IMG.jpg''" for src
    by (simp_all add: dest_name_of_def or_else_def ustr_def)
  have sp: "splitext (ustr ''IMG.jpg'') = (ustr ''IMG'', ustr ''.jpg'')"
    by (simp add: splitext_def basename_def Let_def ustr_def)
  have j1: "join ?d (ustr ''IMG.jpg'') = ustr ''out/att/IMG.jpg''"
    and j2: "join ?d (ustr ''IMG'' @ ustr ''_1'' @ ustr ''.jpg'') = ustr ''out/att/IMG_1.jpg''"
    by (simp_all add: join_def startswith_def ustr_def)
  have b1: "basename (ustr ''out/att/IMG.jpg'') = ustr ''IMG.jpg''"
    and b2: "basename (ustr ''out/att/IMG_1.jpg'') = ustr ''IMG_1.jpg''"
    by (simp_all add: basename_def ustr_def)
  have hyp: "truthy (filename ?a1) \<and> truthy (filename ?a2) \<and>
      resolve_source sample_platform ?a1 |\<in>| ?fs \<and> resolve_source sample_platform ?a2 |\<in>| ?fs \<and>
      dest_name_of ?a1 (resolve_source sample_platform ?a1) = ustr ''IMG.jpg'' \<and>
      dest_name_of ?a2 (resolve_source sample_platform ?a2) = ustr ''IMG.jpg'' \<and>
      splitext (ustr ''IMG.jpg'') = (ustr ''IMG'', ustr ''.jpg'') \<and>
      join ?d (ustr ''IMG.jpg'') |\<notin>| ?fs \<and>
      join ?d (ustr ''IMG'' @ ustr ''_1'' @ ustr ''.jpg'') |\<notin>| ?fs \<and>
      copy2 sample_platform (resolve_source sample_platform ?a1) (join ?d (ustr ''IMG.jpg'')) ?fs =
        (True, finsert (join ?d (ustr ''IMG.jpg'')) ?fs) \<and>
      copy2 sample_platform (resolve_source sample_platform ?a2)
          (join ?d (ustr ''IMG'' @ ustr ''_1'' @ ustr ''.jpg'')) (finsert (join ?d (ustr ''IMG.jpg'')) ?fs) =
        (True, finsert (join ?d (ustr ''IMG'' @ ustr ''_1'' @ ustr ''.jpg''))
                 (finsert (join ?d (ustr ''IMG.jpg'')) ?fs))"
    unfolding n1 n2 sp j1 j2 s1 s2
    by (simp add: truthy_def sample_platform_def) (simp add: ustr_def)
  from attachment_collision_policy [of ?d _ _ ?fs sample_platform, THEN conjunct2, rule_format, OF hyp]
  show ?thesis
    unfolding j1 j2 b1 b2 by simp
qed

section \<open>Transcript assembler: one message\<close>

lemma attachment_loop_append:
  "attachment_loop P d (xs @ ys) ns st =
     (case attachment_loop P d xs ns st of (n1, st1) \<Rightarrow> attachment_loop P d ys n1 st1)"
  by (induction xs arbitrary: ns st) (auto simp: Let_def split: prod.splits)

lemma attachment_loop_step:
  "\<exists>x st'. attachment_loop P d (a # atts) ns st = attachment_loop P d atts (ns @ [x]) st'"
  by (cases "copy_attachment_file P a d (makedirs P d (files st))") (auto simp: Let_def)

lemma attachment_loop_notes:
  "\<exists>more. fst (attachment_loop P d atts ns st) = ns @ more"
proof (induction atts arbitrary: ns st)
  case Nil
  show ?case by simp
next
  case (Cons a atts)
  from attachment_loop_step [of P d a atts ns st] obtain x st'
    where step: "attachment_loop P d (a # atts) ns st = attachment_loop P d atts (ns @ [x]) st'"
    by blast
  from Cons.IH [of "ns @ [x]" st'] obtain more
    where "fst (attachment_loop P d atts (ns @ [x]) st') = (ns @ [x]) @ more" by blast
  with step have "fst (attachment_loop P d (a # atts) ns st) = ns @ (x # more)" by simp
  then show ?case by blast
qed

lemma attachment_loop_keeps:
  "attachment_loop P d atts ns st = (ns', st') \<Longrightarrow>
     lines st' = lines st \<and> total_messages st' = total_messages st \<and>
     exported_chats st' = exported_chats st"
  by (induction atts arbitrary: ns st)
    (auto simp: Let_def split: prod.splits if_splits)

lemma attachment_loop_unavailable:
  "fst (copy_attachment_file P att d (makedirs P d (files st))) = None \<Longrightarrow>
     attachment_loop P d (att # atts) ns st =
       attachment_loop P d atts
         (ns @ [ustr ''<attachment: '' @ or_else (transfer_name att) (ustr ''file'') @
                   ustr '' (not available)>''])
         (st\<lparr>files := snd (copy_attachment_file P att d (makedirs P d (files st)))\<rparr>)"
  by (cases "copy_attachment_file P att d (makedirs P d (files st))")
    (simp add: Let_def truthy_def)

lemma process_message_regular:
  assumes "format_reaction (associated_message_type msg) = None"
    and "apple_timestamp_to_datetime P (message_date msg) = Inr dt"
    and "attachment_loop P d (get_attachments_for_message conn (message_id msg)) []
           (st\<lparr>total_messages := total_messages st + 1\<rparr>) = (ns, st2)"
  shows "process_message P conn d msg st =
           Inr (if message_parts (or_else (msg_text msg) []) ns = [] then st2
                else st2\<lparr>lines := lines st @
                  [ustr ''['' @ timestamp_label P dt @ ustr ''] '' @ sender_label msg @ ustr '': '' @
                   content_of (message_parts (or_else (msg_text msg) []) ns)]\<rparr>)"
proof -
  from attachment_loop_keeps [OF assms(3)] have "lines st2 = lines st" by simp
  with assms show ?thesis by (simp add: process_message_def Let_def truthy_def)
qed

text \<open>
  C4. A message that is not a reaction, has no attachment and whose body is absent or empty
  once the placeholder and the surrounding whitespace are removed (and whose timestamp the
  library converts) adds no line to the transcript, and the count of messages goes up by
  one: the state changes in this counter only.
\<close>

theorem empty_message_suppressed:
  assumes "format_reaction (associated_message_type msg) = None"
    and "get_attachments_for_message conn (message_id msg) = []"
    and "strip (filter (\<lambda>c. c \<noteq> OBJ) (or_else (msg_text msg) [])) = []"
    and "apple_timestamp_to_datetime P (message_date msg) = Inr dt"
  shows "process_message P conn att_dir msg st = Inr (st\<lparr>total_messages := total_messages st + 1\<rparr>)"
proof -
  have "attachment_loop P att_dir (get_attachments_for_message conn (message_id msg)) []
           (st\<lparr>total_messages := total_messages st + 1\<rparr>)
          = ([], st\<lparr>total_messages := total_messages st + 1\<rparr>)"
    using assms(2) by simp
  from process_message_regular [OF assms(1) assms(4) this] assms(3)
  show ?thesis by (simp add: message_parts_def Let_def)
qed

text \<open>
  A received message whose body is the placeholder followed by a space, with no attachment:
  the lines stay as they are and the count goes from 4 to 5.
\<close>

theorem empty_message_suppressed_witness:
  "process_message sample_platform
      \<lparr>get_chats = [], get_messages_for_chat = (\<lambda>_. []), get_attachments_for_message = (\<lambda>_. [])\<rparr>
      (ustr ''out/readable/Ann/attachments'')
      \<lparr>message_id = 7, msg_text = Some [OBJ, 32], message_date = Some 694224000000000000,
       is_from_me = Some 0, associated_message_type = None, sender_id = Some (ustr ''+15550100'')\<rparr>
      \<lparr>files = {||}, total_messages = 4, total_attachments_copied = 0, exported_chats = 1,
       lines = [ustr ''header'']\<rparr>
    = Inr \<lparr>files = {||}, total_messages = 5, total_attachments_copied = 0, exported_chats = 1,
           lines = [ustr ''header'']\<rparr>"
proof -
  let ?msg = "\<lparr>message_id = 7, msg_text = Some [OBJ, 32], message_date = Some 694224000000000000,
       is_from_me = Some 0, associated_message_type = None, sender_id = Some (ustr ''+15550100'')\<rparr>"
  let ?conn = "\<lparr>get_chats = [], get_messages_for_chat = (\<lambda>_. []),
       get_attachments_for_message = (\<lambda>_. [])\<rparr>"
  have 1: "format_reaction (associated_message_type ?msg) = None"
    by (simp add: format_reaction_def)
  have 2: "get_attachments_for_message ?conn (message_id ?msg) = []" by simp
  have 3: "strip (filter (\<lambda>c. c \<noteq> OBJ) (or_else (msg_text ?msg) [])) = []"
    by (simp add: strip_def or_else_def isspace_def OBJ_def)
  have 4: "apple_timestamp_to_datetime sample_platform (message_date ?msg) = Inr (Some 1672531200)"
    by (simp add: apple_timestamp_to_datetime_def sample_platform_def)
  from empty_message_suppressed [OF 1 2 3 4] show ?thesis by simp
qed

section \<open>Attachment materializer: failing softly\<close>

lemma message_parts_notes: "x \<in> set ns \<Longrightarrow> x \<in> set (message_parts text ns)"
  by (simp add: message_parts_def)

text \<open>
  C5. The materializer returns \<open>None\<close>, and nothing else since it has no exceptional result,
  when the record has no filename, when the resolved source path does not exist, and when
  the copy raises an OS-level error. Whenever it returns \<open>None\<close> for an attachment of a
  message that is not a reaction (and whose timestamp the library converts), the message
  has a line in the transcript and
  \<open><attachment: name (not available)>\<close> is one of its parts, the name being the transfer
  name or \<open>file\<close>.
\<close>

theorem attachment_soft_failure:
  "(\<not> truthy (filename att) \<longrightarrow> copy_attachment_file P att d fs = (None, fs)) \<and>
   (truthy (filename att) \<and> resolve_source P att |\<notin>| fs \<longrightarrow>
      copy_attachment_file P att d fs = (None, fs)) \<and>
   (\<forall>fs'. truthy (filename att) \<and> resolve_source P att |\<in>| fs \<and>
      copy2 P (resolve_source P att) (choose_dest fs d att (resolve_source P att)) fs = (False, fs') \<longrightarrow>
      copy_attachment_file P att d fs = (None, fs')) \<and>
   (\<forall>conn msg st dt before after ns st1.
      format_reaction (associated_message_type msg) = None \<and>
      apple_timestamp_to_datetime P (message_date msg) = Inr dt \<and>
      get_attachments_for_message conn (message_id msg) = before @ att # after \<and>
      attachment_loop P d before [] (st\<lparr>total_messages := total_messages st + 1\<rparr>) = (ns, st1) \<and>
      fst (copy_attachment_file P att d (makedirs P d (files st1))) = None \<longrightarrow>
      (\<exists>parts st'. process_message P conn d msg st = Inr st' \<and>
         ustr ''<attachment: '' @ or_else (transfer_name att) (ustr ''file'') @
           ustr '' (not available)>'' \<in> set parts \<and>
         lines st' = lines st @
           [ustr ''['' @ timestamp_label P dt @ ustr ''] '' @ sender_label msg @ ustr '': '' @
            content_of parts]))"
proof (intro conjI allI impI)
  assume "\<not> truthy (filename att)"
  then show "copy_attachment_file P att d fs = (None, fs)"
    by (simp add: copy_attachment_file_def)
next
  assume "truthy (filename att) \<and> resolve_source P att |\<notin>| fs"
  then show "copy_attachment_file P att d fs = (None, fs)"
    by (simp add: copy_attachment_file_def Let_def)
next
  fix fs'
  assume "truthy (filename att) \<and> resolve_source P att |\<in>| fs \<and>
      copy2 P (resolve_source P att) (choose_dest fs d att (resolve_source P att)) fs = (False, fs')"
  then show "copy_attachment_file P att d fs = (None, fs')"
    by (simp add: copy_attachment_file_def Let_def)
next
  fix conn :: connection and msg :: message and st :: export_state and dt before after ns st1
  let ?note = "ustr ''<attachment: '' @ or_else (transfer_name att) (ustr ''file'') @
           ustr '' (not available)>''"
  let ?st0 = "st\<lparr>total_messages := total_messages st + 1\<rparr>"
  assume h: "format_reaction (associated_message_type msg) = None \<and>
      apple_timestamp_to_datetime P (message_date msg) = Inr dt \<and>
      get_attachments_for_message conn (message_id msg) = before @ att # after \<and>
      attachment_loop P d before [] ?st0 = (ns, st1) \<and>
      fst (copy_attachment_file P att d (makedirs P d (files st1))) = None"
  obtain ns2 st2 where fin: "attachment_loop P d (before @ att # after) [] ?st0 = (ns2, st2)"
    by (cases "attachment_loop P d (before @ att # after) [] ?st0")
  let ?st1' = "st1\<lparr>files := snd (copy_attachment_file P att d (makedirs P d (files st1)))\<rparr>"
  from h have "attachment_loop P d (before @ att # after) [] ?st0 =
      attachment_loop P d after (ns @ [?note]) ?st1'"
    by (simp add: attachment_loop_append attachment_loop_unavailable del: attachment_loop.simps)
  with fin have "fst (attachment_loop P d after (ns @ [?note]) ?st1') = ns2"
    by (metis fst_conv)
  with attachment_loop_notes [of P d after "ns @ [?note]" ?st1']
  obtain more where "ns2 = (ns @ [?note]) @ more" by auto
  then have "?note \<in> set ns2" by simp
  then have mem: "?note \<in> set (message_parts (or_else (msg_text msg) []) ns2)"
    by (rule message_parts_notes)
  then have ne: "message_parts (or_else (msg_text msg) []) ns2 \<noteq> []" by auto
  from h fin have fin': "attachment_loop P d (get_attachments_for_message conn (message_id msg)) []
      ?st0 = (ns2, st2)" by simp
  from h have r: "format_reaction (associated_message_type msg) = None"
    and t: "apple_timestamp_to_datetime P (message_date msg) = Inr dt" by simp_all
  from process_message_regular [OF r t fin'] ne
  have pm: "process_message P conn d msg st =
      Inr (st2\<lparr>lines := lines st @
        [ustr ''['' @ timestamp_label P dt @ ustr ''] '' @ sender_label msg @ ustr '': '' @
         content_of (message_parts (or_else (msg_text msg) []) ns2)]\<rparr>)"
    by simp
  show "\<exists>parts st'. process_message P conn d msg st = Inr st' \<and>
         ?note \<in> set parts \<and>
         lines st' = lines st @
           [ustr ''['' @ timestamp_label P dt @ ustr ''] '' @ sender_label msg @ ustr '': '' @
            content_of parts]"
    unfolding pm
    by (rule exI [of _ "message_parts (or_else (msg_text msg) []) ns2"], rule exI, intro conjI)
      (rule refl, rule mem, simp)
qed

text \<open>
  An attachment with no filename; one whose source is missing; one whose copy fails, on the
  platform changed so that every copy raises; and a received message that consists of the
  first of these attachments.
\<close>

theorem attachment_soft_failure_witness:
  "copy_attachment_file sample_platform
      \<lparr>attachment_id = 1, filename = None, transfer_name = Some (ustr ''IMG.jpg'')\<rparr>
      (ustr ''out/att'') {||} = (None, {||}) \<and>
   copy_attachment_file sample_platform
      \<lparr>attachment_id = 2, filename = Some (ustr ''~/Library/a/IMG.jpg''),
       transfer_name = Some (ustr ''IMG.jpg'')\<rparr>
      (ustr ''out/att'') {||} = (None, {||}) \<and>
   copy_attachment_file (sample_platform\<lparr>copy2 := \<lambda>src dst fs. (False, fs)\<rparr>)
      \<lparr>attachment_id = 2, filename = Some (ustr ''~/Library/a/IMG.jpg''),
       transfer_name = Some (ustr ''IMG.jpg'')\<rparr>
      (ustr ''out/att'') {|ustr ''/Users/me/Library/a/IMG.jpg''|}
     = (None, {|ustr ''/Users/me/Library/a/IMG.jpg''|}) \<and>
   (\<exists>parts st'.
      process_message sample_platform
        \<lparr>get_chats = [], get_messages_for_chat = (\<lambda>_. []),
         get_attachments_for_message = (\<lambda>_.
           [\<lparr>attachment_id = 1, filename = None, transfer_name = Some (ustr ''IMG.jpg'')\<rparr>])\<rparr>
        (ustr ''out/att'')
        \<lparr>message_id = 3, msg_text = Some [OBJ], message_date = Some 694224000000000000,
         is_from_me = Some 0, associated_message_type = None,
         sender_id = Some (ustr ''+15550100'')\<rparr>
        \<lparr>files = {||}, total_messages = 0, total_attachments_copied = 0, exported_chats = 1,
         lines = []\<rparr> = Inr st' \<and>
      ustr ''<attachment: IMG.jpg (not available)>'' \<in> set parts \<and>
      lines st' = [ustr ''[1672531200] +15550100: '' @ content_of parts])"
proof -
  let ?a1 = "\<lparr>attachment_id = 1, filename = None, transfer_name = Some (ustr ''IMG.jpg'')\<rparr>"
  let ?a2 = "\<lparr>attachment_id = 2, filename = Some (ustr ''~/Library/a/IMG.jpg''),
       transfer_name = Some (ustr ''IMG.jpg'')\<rparr>"
  let ?d = "ustr ''out/att''"
  let ?F = "sample_platform\<lparr>copy2 := \<lambda>src dst fs. (False, fs)\<rparr>"
  let ?conn = "\<lparr>get_chats = [], get_messages_for_chat = (\<lambda>_. []),
         get_attachments_for_message = (\<lambda>_. [?a1])\<rparr>"
  let ?msg = "\<lparr>message_id = 3, msg_text = Some [OBJ], message_date = Some 694224000000000000,
         is_from_me = Some 0, associated_message_type = None,
         sender_id = Some (ustr ''+15550100'')\<rparr>"
  let ?st = "\<lparr>files = {||}, total_messages = 0, total_attachments_copied = 0, exported_chats = 1,
         lines = []\<rparr>"
  have none: "\<not> truthy (filename ?a1)" by (simp add: truthy_def)
  have a: "copy_attachment_file sample_platform ?a1 ?d fs = (None, fs)" for fs
    using attachment_soft_failure [of ?a1 sample_platform ?d fs, THEN conjunct1] none by simp
  have src: "resolve_source P ?a2 = expanduser P (ustr ''~/Library/a/IMG.jpg'')"
    for P :: "real platform"
    by (simp add: resolve_source_def or_else_def startswith_def ustr_def)
  have b: "copy_attachment_file sample_platform ?a2 ?d {||} = (None, {||})"
    using attachment_soft_failure [of ?a2 sample_platform ?d "{||}", THEN conjunct2, THEN conjunct1]
    by (simp add: truthy_def ustr_def)
  have "truthy (filename ?a2) \<and> resolve_source ?F ?a2 |\<in>| {|ustr ''/Users/me/Library/a/IMG.jpg''|} \<and>
      copy2 ?F (resolve_source ?F ?a2)
        (choose_dest {|ustr ''/Users/me/Library/a/IMG.jpg''|} ?d ?a2 (resolve_source ?F ?a2))
        {|ustr ''/Users/me/Library/a/IMG.jpg''|} = (False, {|ustr ''/Users/me/Library/a/IMG.jpg''|})"
    by (simp add: truthy_def src sample_platform_def) (simp add: ustr_def)
  with attachment_soft_failure [of ?a2 ?F ?d "{|ustr ''/Users/me/Library/a/IMG.jpg''|}",
      THEN conjunct2, THEN conjunct2, THEN conjunct1]
  have c: "copy_attachment_file ?F ?a2 ?d {|ustr ''/Users/me/Library/a/IMG.jpg''|}
      = (None, {|ustr ''/Users/me/Library/a/IMG.jpg''|})"
    by blast
  have hyp: "format_reaction (associated_message_type ?msg) = None \<and>
      apple_timestamp_to_datetime sample_platform (message_date ?msg) = Inr (Some 1672531200) \<and>
      get_attachments_for_message ?conn (message_id ?msg) = [] @ ?a1 # [] \<and>
      attachment_loop sample_platform ?d [] [] (?st\<lparr>total_messages := total_messages ?st + 1\<rparr>)
        = ([], ?st\<lparr>total_messages := total_messages ?st + 1\<rparr>) \<and>
      fst (copy_attachment_file sample_platform ?a1 ?d
             (makedirs sample_platform ?d (files (?st\<lparr>total_messages := total_messages ?st + 1\<rparr>))))
        = None"
    by (simp add: format_reaction_def a) (simp add: apple_timestamp_to_datetime_def sample_platform_def)
  have s: "str_int 1672531200 = ustr ''1672531200''"
    by (simp add: str_int_def str_nat.simps digit_def ustr_def)
  have f: "timestamp_label sample_platform (Some 1672531200) = ustr ''1672531200''"
    by (simp add: timestamp_label_def sample_platform_def) (simp only: s)
  have g: "sender_label ?msg = ustr ''+15550100''"
    by (simp add: sender_label_def is_true_def or_else_def ustr_def)
  have n: "ustr ''<attachment: '' @ or_else (transfer_name ?a1) (ustr ''file'') @
      ustr '' (not available)>'' = ustr ''<attachment: IMG.jpg (not available)>''"
    by (simp add: or_else_def ustr_def)
  have p: "ustr ''['' @ ustr ''1672531200'' @ ustr ''] '' @ ustr ''+15550100'' @ ustr '': '' @ x
      = ustr ''[1672531200] +15550100: '' @ x" for x
    by (simp add: ustr_def)
  from attachment_soft_failure [of ?a1 sample_platform ?d "{||}", THEN conjunct2, THEN conjunct2,
      THEN conjunct2, rule_format, OF hyp]
  have d: "\<exists>parts st'. process_message sample_platform ?conn ?d ?msg ?st = Inr st' \<and>
      ustr ''<attachment: IMG.jpg (not available)>'' \<in> set parts \<and>
      lines st' = [ustr ''[1672531200] +15550100: '' @ content_of parts]"
    unfolding f g n p by simp
  from a [of "{||}"] b c d show ?thesis by blast
qed

section \<open>Transcript assembler: scenario A\<close>

lemma strip_eq_Nil: "strip s = [] \<longleftrightarrow> (\<forall>c \<in> set s. isspace c)"
proof
  assume "strip s = []"
  then have "\<forall>c \<in> set (dropWhile isspace s). isspace c"
    by (simp add: strip_def dropWhile_eq_Nil_conv)
  then have "dropWhile isspace s = []"
    by (metis hd_dropWhile hd_in_set)
  then show "\<forall>c \<in> set s. isspace c" by (simp add: dropWhile_eq_Nil_conv)
next
  assume "\<forall>c \<in> set s. isspace c"
  then have "dropWhile isspace s = []" by (simp add: dropWhile_eq_Nil_conv)
  then show "strip s = []" by (simp only: strip_def rev.simps dropWhile.simps)
qed

lemma message_parts_text:
  assumes "strip (filter (\<lambda>c. c \<noteq> OBJ) text) \<noteq> []"
  shows "message_parts text ns = strip (filter (\<lambda>c. c \<noteq> OBJ) text) # ns"
proof -
  have "strip text \<noteq> []"
  proof
    assume "strip text = []"
    then have "\<forall>c \<in> set (filter (\<lambda>c. c \<noteq> OBJ) text). isspace c"
      by (simp add: strip_eq_Nil)
    then have "strip (filter (\<lambda>c. c \<noteq> OBJ) text) = []"
      by (simp only: strip_eq_Nil)
    with assms show False by contradiction
  qed
  with assms show ?thesis by (simp add: message_parts_def Let_def)
qed

lemma message_parts_no_text:
  "strip (filter (\<lambda>c. c \<noteq> OBJ) text) = [] \<Longrightarrow> message_parts text ns = ns"
  by (simp add: message_parts_def Let_def)

lemma process_message_reaction:
  assumes "format_reaction (associated_message_type msg) = Some r"
    and "apple_timestamp_to_datetime P (message_date msg) = Inr dt"
  shows "process_message P conn d msg st =
           Inr (st\<lparr>total_messages := total_messages st + 1,
                   lines := lines st @
                     [ustr ''['' @ timestamp_label P dt @ ustr ''] '' @ sender_label msg @
                      ustr '' '' @ r @ ustr '' '' @ reaction_target msg]\<rparr>)"
proof -
  from assms(1) have "r \<noteq> []" by (rule reaction_not_empty)
  with assms show ?thesis
    by (simp add: process_message_def Let_def truthy_def or_else_def)
qed

lemma attachment_loop_single:
  "\<exists>st'. attachment_loop P d [a] [] st =
       ([attachment_note a (fst (copy_attachment_file P a d (makedirs P d (files st))))], st') \<and>
     lines st' = lines st \<and> total_messages st' = total_messages st \<and>
     exported_chats st' = exported_chats st \<and>
     files st' = snd (copy_attachment_file P a d (makedirs P d (files st)))"
  by (cases "copy_attachment_file P a d (makedirs P d (files st))")
    (simp add: Let_def attachment_note_def)

lemma three_message_export:
  fixes st :: export_state
  assumes msgs: "get_messages_for_chat conn (chat_id c) = [m1, m2, m3]"
    and m1: "format_reaction (associated_message_type m1) = None"
      "get_attachments_for_message conn (message_id m1) = []"
      "strip (filter (\<lambda>c. c \<noteq> OBJ) (or_else (msg_text m1) [])) \<noteq> []"
    and m2: "format_reaction (associated_message_type m2) = Some r"
    and m3: "format_reaction (associated_message_type m3) = None"
      "get_attachments_for_message conn (message_id m3) = [a]"
      "strip (filter (\<lambda>c. c \<noteq> OBJ) (or_else (msg_text m3) [])) = []"
    and t: "apple_timestamp_to_datetime P (message_date m1) = Inr d1"
      "apple_timestamp_to_datetime P (message_date m2) = Inr d2"
      "apple_timestamp_to_datetime P (message_date m3) = Inr d3"
    and dirs: "chat_dir = join readable_dir (sanitize_filename (Some (get_chat_display_name c)))"
      "att_dir = join chat_dir (ustr ''attachments'')"
  shows "\<exists>st'. export_chat P conn readable_dir None c st = Inr st' \<and>
      lines st' = header c (get_chat_display_name c) [m1, m2, m3] @
        [ustr ''['' @ timestamp_label P d1 @ ustr ''] '' @ sender_label m1 @ ustr '': '' @
           strip (filter (\<lambda>c. c \<noteq> OBJ) (or_else (msg_text m1) [])),
         ustr ''['' @ timestamp_label P d2 @ ustr ''] '' @ sender_label m2 @ ustr '' '' @ r @
           ustr '' '' @ reaction_target m2,
         ustr ''['' @ timestamp_label P d3 @ ustr ''] '' @ sender_label m3 @ ustr '': '' @
           attachment_note a (fst (copy_attachment_file P a att_dir
             (makedirs P att_dir (makedirs P chat_dir (files st)))))] \<and>
      total_messages st' = total_messages st + 3 \<and>
      exported_chats st' = exported_chats st + 1"
proof -
  let ?h = "header c (get_chat_display_name c) [m1, m2, m3]"
  let ?l1 = "ustr ''['' @ timestamp_label P d1 @ ustr ''] '' @ sender_label m1 @ ustr '': '' @
           strip (filter (\<lambda>c. c \<noteq> OBJ) (or_else (msg_text m1) []))"
  let ?l2 = "ustr ''['' @ timestamp_label P d2 @ ustr ''] '' @ sender_label m2 @ ustr '' '' @ r @
           ustr '' '' @ reaction_target m2"
  let ?note = "attachment_note a (fst (copy_attachment_file P a att_dir
             (makedirs P att_dir (makedirs P chat_dir (files st)))))"
  let ?l3 = "ustr ''['' @ timestamp_label P d3 @ ustr ''] '' @ sender_label m3 @ ustr '': '' @ ?note"
  define st0 where "st0 = st\<lparr>exported_chats := exported_chats st + 1,
      files := makedirs P chat_dir (files st), lines := ?h\<rparr>"
  define st1 where "st1 = st0\<lparr>total_messages := total_messages st0 + 1, lines := ?h @ [?l1]\<rparr>"
  define st2 where "st2 = st1\<lparr>total_messages := total_messages st1 + 1, lines := ?h @ [?l1, ?l2]\<rparr>"
  have "attachment_loop P att_dir (get_attachments_for_message conn (message_id m1)) []
      (st0\<lparr>total_messages := total_messages st0 + 1\<rparr>) = ([], st0\<lparr>total_messages := total_messages st0 + 1\<rparr>)"
    using m1(2) by simp
  from process_message_regular [OF m1(1) t(1) this]
  have p1: "process_message P conn att_dir m1 st0 = Inr st1"
    using m1(3) by (simp add: message_parts_text content_of_def st1_def st0_def)
  from process_message_reaction [OF m2 t(2), of conn att_dir st1]
  have p2: "process_message P conn att_dir m2 st1 = Inr st2"
    by (simp add: st2_def st1_def)
  have f2: "files (st2\<lparr>total_messages := total_messages st2 + 1\<rparr>) = makedirs P chat_dir (files st)"
    by (simp add: st2_def st1_def st0_def)
  from attachment_loop_single [of P att_dir a "st2\<lparr>total_messages := total_messages st2 + 1\<rparr>"]
  obtain st3 where a3: "attachment_loop P att_dir [a] [] (st2\<lparr>total_messages := total_messages st2 + 1\<rparr>)
      = ([?note], st3)"
    and k3: "lines st3 = lines st2" "total_messages st3 = total_messages st2 + 1"
      "exported_chats st3 = exported_chats st2"
    unfolding f2 by auto
  from a3 m3(2) have "attachment_loop P att_dir (get_attachments_for_message conn (message_id m3)) []
      (st2\<lparr>total_messages := total_messages st2 + 1\<rparr>) = ([?note], st3)"
    by simp
  from process_message_regular [OF m3(1) t(3) this]
  have p3: "process_message P conn att_dir m3 st2 = Inr (st3\<lparr>lines := ?h @ [?l1, ?l2, ?l3]\<rparr>)"
    using m3(3) by (simp add: message_parts_no_text content_of_def st2_def)
  have loop: "message_loop P conn att_dir [m1, m2, m3] st0 = Inr (st3\<lparr>lines := ?h @ [?l1, ?l2, ?l3]\<rparr>)"
    by (simp add: p1 p2 p3)
  have "export_chat P conn readable_dir None c st =
      Inr (st3\<lparr>lines := ?h @ [?l1, ?l2, ?l3],
              files := write_text P (join chat_dir (ustr ''chat.txt''))
                (join_str [10] (?h @ [?l1, ?l2, ?l3]) @ [10]) (files st3)\<rparr>)"
    using msgs loop
    by (simp add: export_chat_def filter_skips_def truthy_def Let_def st0_def dirs)
  moreover have "total_messages st3 = total_messages st + 3"
    using k3 by (simp add: st2_def st1_def st0_def)
  moreover have "exported_chats st3 = exported_chats st + 1"
    using k3 by (simp add: st2_def st1_def st0_def)
  ultimately show ?thesis by (intro exI conjI) (assumption, simp_all)
qed

lemma str_int_eval:
  "str_int 1672531200 = ustr ''1672531200''"
  "str_int 1672531260 = ustr ''1672531260''"
  "str_int 1672531320 = ustr ''1672531320''"
  by (simp_all add: str_int_def str_nat.simps digit_def ustr_def)

lemma scenario_times:
  "apple_timestamp_to_datetime sample_platform (message_date text_message) = Inr (Some 1672531200)"
  "apple_timestamp_to_datetime sample_platform (message_date liked_reaction) = Inr (Some 1672531260)"
  "apple_timestamp_to_datetime sample_platform (message_date attachment_message) = Inr (Some 1672531320)"
  by (simp_all add: apple_timestamp_to_datetime_def sample_platform_def text_message_def
      liked_reaction_def attachment_message_def)

lemma scenario_labels:
  "timestamp_label sample_platform (Some 1672531200) = ustr ''1672531200''"
  "timestamp_label sample_platform (Some 1672531260) = ustr ''1672531260''"
  "timestamp_label sample_platform (Some 1672531320) = ustr ''1672531320''"
  by (simp_all add: timestamp_label_def sample_platform_def) (simp_all only: str_int_eval)

lemma scenario_senders:
  "sender_label text_message = ustr ''+15550100''"
  "sender_label liked_reaction = ustr ''Me''"
  "sender_label attachment_message = ustr ''+15550100''"
  by (simp_all add: sender_label_def is_true_def or_else_def ustr_def text_message_def
      liked_reaction_def attachment_message_def)

lemma scenario_name: "get_chat_display_name scenario_chat = ustr ''+15550100''"
  by (simp add: get_chat_display_name_def scenario_chat_def truthy_def or_else_def ustr_def)

lemma scenario_safe_name: "sanitize_filename (Some (ustr ''+15550100'')) = ustr ''+15550100''"
  by (simp add: sanitize_filename_def sub_invalid_def invalid_char_def run_char_def isspace_def
      strip_def Let_def ustr_def)

lemma scenario_dirs:
  "join (ustr ''out'') (ustr ''readable'') = ustr ''out/readable''"
  "join (ustr ''out/readable'') (ustr ''+15550100'') = ustr ''out/readable/+15550100''"
  "join (ustr ''out/readable/+15550100'') (ustr ''attachments'')
     = ustr ''out/readable/+15550100/attachments''"
  by (simp_all add: join_def startswith_def ustr_def)

lemma scenario_header:
  "header scenario_chat (ustr ''+15550100'') [text_message, liked_reaction, attachment_message] =
     [replicate 60 61, ustr ''Conversation: +15550100'', replicate 60 61, ustr ''Messages: 3'', []]"
  by (simp add: header_def scenario_chat_def str_nat.simps digit_def ustr_def)

lemma scenario_copy:
  "fst (copy_attachment_file sample_platform image_attachment
      (ustr ''out/readable/+15550100/attachments'')
      (makedirs sample_platform (ustr ''out/readable/+15550100/attachments'')
        (makedirs sample_platform (ustr ''out/readable/+15550100'')
          {|ustr ''out/readable'', ustr ''/Users/me/Library/a/IMG.jpg''|})))
    = Some (ustr ''IMG.jpg'')"
proof -
  let ?d = "ustr ''out/readable/+15550100/attachments''"
  let ?fs = "{|?d, ustr ''out/readable/+15550100'', ustr ''out/readable'',
      ustr ''/Users/me/Library/a/IMG.jpg''|}"
  have fs: "makedirs sample_platform ?d (makedirs sample_platform (ustr ''out/readable/+15550100'')
          {|ustr ''out/readable'', ustr ''/Users/me/Library/a/IMG.jpg''|}) = ?fs"
    by (simp add: sample_platform_def)
  have src: "resolve_source sample_platform image_attachment = ustr ''/Users/me/Library/a/IMG.jpg''"
    by (simp add: resolve_source_def sample_platform_def or_else_def startswith_def ustr_def
        image_attachment_def)
  have nm: "dest_name_of image_attachment src = ustr ''IMG.jpg''" for src
    by (simp add: dest_name_of_def or_else_def ustr_def image_attachment_def)
  have j: "join ?d (ustr ''IMG.jpg'') = ustr ''out/readable/+15550100/attachments/IMG.jpg''"
    by (simp add: join_def startswith_def ustr_def)
  have "join ?d (dest_name_of image_attachment (ustr ''/Users/me/Library/a/IMG.jpg'')) |\<notin>| ?fs"
    unfolding nm j by (simp add: ustr_def)
  from choose_dest_free [OF this]
  have dest: "choose_dest ?fs ?d image_attachment (ustr ''/Users/me/Library/a/IMG.jpg'')
      = ustr ''out/readable/+15550100/attachments/IMG.jpg''"
    unfolding nm j .
  have b: "basename (ustr ''out/readable/+15550100/attachments/IMG.jpg'') = ustr ''IMG.jpg''"
    by (simp add: basename_def ustr_def)
  have "copy_attachment_file sample_platform image_attachment ?d ?fs
      = (Some (ustr ''IMG.jpg''), finsert (ustr ''out/readable/+15550100/attachments/IMG.jpg'') ?fs)"
    unfolding copy_attachment_file_def src dest Let_def b
    by (simp add: truthy_def image_attachment_def sample_platform_def) (simp add: ustr_def)
  then show ?thesis unfolding fs by simp
qed

lemma scenario_messages:
  "get_messages_for_chat scenario_a (chat_id scenario_chat)
      = [text_message, liked_reaction, attachment_message]"
  "format_reaction (associated_message_type text_message) = None"
  "get_attachments_for_message scenario_a (message_id text_message) = []"
  "strip (filter (\<lambda>c. c \<noteq> OBJ) (or_else (msg_text text_message) [])) \<noteq> []"
  "associated_message_type liked_reaction = Some 2001"
  "format_reaction (associated_message_type attachment_message) = None"
  "get_attachments_for_message scenario_a (message_id attachment_message) = [image_attachment]"
  "strip (filter (\<lambda>c. c \<noteq> OBJ) (or_else (msg_text attachment_message) [])) = []"
  by (simp_all add: format_reaction_def reactions_def scenario_a_def scenario_chat_def
      text_message_def liked_reaction_def attachment_message_def strip_def or_else_def
      isspace_def OBJ_def ustr_def)

lemma scenario_paths:
  "ustr ''out/readable/+15550100'' = join (ustr ''out/readable'')
        (sanitize_filename (Some (get_chat_display_name scenario_chat)))"
  "ustr ''out/readable/+15550100/attachments'' =
     join (ustr ''out/readable/+15550100'') (ustr ''attachments'')"
  by (simp_all only: scenario_name scenario_safe_name scenario_dirs)

lemma scenario_texts:
  "strip (filter (\<lambda>c. c \<noteq> OBJ) (or_else (msg_text text_message) [])) = ustr ''Hello''"
  "reaction_target liked_reaction = ustr ''a message''"
  "attachment_note image_attachment (Some (ustr ''IMG.jpg'')) = ustr ''<attachment: IMG.jpg>''"
  by (simp_all add: text_message_def strip_def or_else_def isspace_def OBJ_def ustr_def
      reaction_target_def liked_reaction_def startswith_def attachment_note_def truthy_def)

lemma scenario_lines:
  "ustr ''['' @ ustr ''1672531200'' @ ustr ''] '' @ ustr ''+15550100'' @ ustr '': '' @ ustr ''Hello''
      = ustr ''[1672531200] +15550100: Hello''"
  "ustr ''['' @ ustr ''1672531260'' @ ustr ''] '' @ ustr ''Me'' @ ustr '' '' @ ustr ''Liked'' @ ustr '' '' @
     ustr ''a message'' = ustr ''[1672531260] Me Liked a message''"
  "ustr ''['' @ ustr ''1672531320'' @ ustr ''] '' @ ustr ''+15550100'' @ ustr '': '' @
     ustr ''<attachment: IMG.jpg>'' = ustr ''[1672531320] +15550100: <attachment: IMG.jpg>''"
  by (simp_all add: ustr_def)

lemma liked_code: "associated_message_type m = Some 2001 \<Longrightarrow>
    format_reaction (associated_message_type m) = Some (ustr ''Liked'')"
  by (simp add: format_reaction_def reactions_def)

text \<open>
  C7, as stated, fails on scenario A: the export renders three message lines, one for each
  message, the attachment-only message included, and the reaction line reads
  \<open>Liked a message\<close>: the text \<open>Hello\<close> of the first message is not in it.
\<close>

theorem scenario_a_counterexample:
  "map_sum id (drop 5 \<circ> lines)
     (do_readable_export sample_platform scenario_a (ustr ''out'') None
        {|ustr ''/Users/me/Library/a/IMG.jpg''|})
     = Inr [ustr ''[1672531200] +15550100: Hello'',
            ustr ''[1672531260] Me Liked a message'',
            ustr ''[1672531320] +15550100: <attachment: IMG.jpg>''] \<and>
   msg_text text_message = Some (ustr ''Hello'')"
proof -
  let ?st = "\<lparr>files = {|ustr ''out/readable'', ustr ''/Users/me/Library/a/IMG.jpg''|},
      total_messages = 0, total_attachments_copied = 0, exported_chats = 0, lines = []\<rparr>"
  from three_message_export [OF scenario_messages(1-4) liked_code [OF scenario_messages(5)]
      scenario_messages(6-8) scenario_times scenario_paths, of ?st]
  obtain st' where e: "export_chat sample_platform scenario_a (ustr ''out/readable'') None
      scenario_chat ?st = Inr st'"
    and l: "lines st' =
        [replicate 60 61, ustr ''Conversation: +15550100'', replicate 60 61, ustr ''Messages: 3'', [],
         ustr ''[1672531200] +15550100: Hello'',
         ustr ''[1672531260] Me Liked a message'',
         ustr ''[1672531320] +15550100: <attachment: IMG.jpg>'']"
    unfolding scenario_name scenario_header scenario_labels scenario_senders
      scenario_texts scenario_lines
    by (auto simp: scenario_copy scenario_texts scenario_lines)
  have "do_readable_export sample_platform scenario_a (ustr ''out'') None
        {|ustr ''/Users/me/Library/a/IMG.jpg''|} = Inr st'"
    unfolding do_readable_export_def Let_def scenario_dirs
    by (simp add: scenario_a_def sample_platform_def e [unfolded scenario_a_def sample_platform_def])
  with l show ?thesis by (simp add: text_message_def)
qed

text \<open>
  C7, amended. For one conversation with exactly three messages, a text message, then a
  "Liked" reaction, then an attachment-only message with one attachment (the library
  converting their timestamps), the transcript has, after its header, exactly three rendered
  lines, in the order in which the query returns the messages, which is ascending in the
  timestamp: the text line, the reaction line, whose target description is made from the
  reaction row's own body (\<open>a message\<close> when that is absent, empty or begins with the
  placeholder), and a line with the note of the attachment. The three messages are counted.
\<close>

theorem three_message_transcript:
  fixes st :: export_state
  assumes "get_messages_for_chat conn (chat_id c) = [m1, m2, m3]"
    and "format_reaction (associated_message_type m1) = None"
      "get_attachments_for_message conn (message_id m1) = []"
      "strip (filter (\<lambda>c. c \<noteq> OBJ) (or_else (msg_text m1) [])) \<noteq> []"
    and "associated_message_type m2 = Some 2001"
    and "format_reaction (associated_message_type m3) = None"
      "get_attachments_for_message conn (message_id m3) = [a]"
      "strip (filter (\<lambda>c. c \<noteq> OBJ) (or_else (msg_text m3) [])) = []"
    and "apple_timestamp_to_datetime P (message_date m1) = Inr d1"
      "apple_timestamp_to_datetime P (message_date m2) = Inr d2"
      "apple_timestamp_to_datetime P (message_date m3) = Inr d3"
    and "chat_dir = join readable_dir (sanitize_filename (Some (get_chat_display_name c)))"
      "att_dir = join chat_dir (ustr ''attachments'')"
  shows "\<exists>st'. export_chat P conn readable_dir None c st = Inr st' \<and>
      lines st' = header c (get_chat_display_name c) [m1, m2, m3] @
        [ustr ''['' @ timestamp_label P d1 @ ustr ''] '' @ sender_label m1 @ ustr '': '' @
           strip (filter (\<lambda>c. c \<noteq> OBJ) (or_else (msg_text m1) [])),
         ustr ''['' @ timestamp_label P d2 @ ustr ''] '' @ sender_label m2 @ ustr '' Liked '' @
           reaction_target m2,
         ustr ''['' @ timestamp_label P d3 @ ustr ''] '' @ sender_label m3 @ ustr '': '' @
           attachment_note a (fst (copy_attachment_file P a att_dir
             (makedirs P att_dir (makedirs P chat_dir (files st)))))] \<and>
      total_messages st' = total_messages st + 3 \<and>
      exported_chats st' = exported_chats st + 1"
proof -
  have "ustr '' '' @ ustr ''Liked'' @ ustr '' '' @ x = ustr '' Liked '' @ x" for x
    by (simp add: ustr_def)
  with three_message_export [OF assms(1-4) liked_code [OF assms(5)] assms(6-13), of st]
  show ?thesis by simp
qed

text \<open>On scenario A.\<close>

theorem three_message_transcript_witness:
  "\<exists>st'. export_chat sample_platform scenario_a (ustr ''out/readable'') None scenario_chat
        \<lparr>files = {|ustr ''out/readable'', ustr ''/Users/me/Library/a/IMG.jpg''|},
         total_messages = 0, total_attachments_copied = 0, exported_chats = 0, lines = []\<rparr>
        = Inr st' \<and>
      lines st' =
        [replicate 60 61, ustr ''Conversation: +15550100'', replicate 60 61, ustr ''Messages: 3'', [],
         ustr ''[1672531200] +15550100: Hello'',
         ustr ''[1672531260] Me Liked a message'',
         ustr ''[1672531320] +15550100: <attachment: IMG.jpg>''] \<and>
      total_messages st' = 3 \<and> exported_chats st' = 1"
proof -
  let ?st = "\<lparr>files = {|ustr ''out/readable'', ustr ''/Users/me/Library/a/IMG.jpg''|},
      total_messages = 0, total_attachments_copied = 0, exported_chats = 0, lines = []\<rparr>"
  have cat: "ustr ''['' @ ustr ''1672531260'' @ ustr ''] '' @ ustr ''Me'' @ ustr '' Liked '' @
     ustr ''a message'' = ustr ''[1672531260] Me Liked a message''"
    by (simp add: ustr_def)
  from three_message_transcript [OF scenario_messages scenario_times scenario_paths, of ?st]
  show ?thesis
    unfolding scenario_name scenario_header scenario_labels scenario_senders
      scenario_texts scenario_lines cat
    by (simp add: scenario_copy scenario_texts scenario_lines)
qed

section \<open>Transcript assembler: the contact filter\<close>

lemma str_in_iff: "str_in needle hay \<longleftrightarrow> (\<exists>ps ss. hay = ps @ needle @ ss)"
proof -
  have "str_in needle hay \<longleftrightarrow> sublist needle hay"
    by (induction hay) (simp_all add: sublist_Cons_right)
  then show ?thesis by (simp add: sublist_def)
qed

lemma process_message_exported:
  assumes "process_message P conn d m st = Inr st'"
  shows "exported_chats st' = exported_chats st"
proof (cases "apple_timestamp_to_datetime P (message_date m)")
  case (Inl e)
  with assms show ?thesis by (simp add: process_message_def)
next
  case (Inr dt)
  show ?thesis
  proof (cases "format_reaction (associated_message_type m)")
    case (Some r)
    from process_message_reaction [OF Some Inr, of conn d st] assms show ?thesis by auto
  next
    case None
    obtain ns st2 where a: "attachment_loop P d (get_attachments_for_message conn (message_id m)) []
        (st\<lparr>total_messages := total_messages st + 1\<rparr>) = (ns, st2)"
      by (cases "attachment_loop P d (get_attachments_for_message conn (message_id m)) []
        (st\<lparr>total_messages := total_messages st + 1\<rparr>)")
    from attachment_loop_keeps [OF a] have "exported_chats st2 = exported_chats st" by simp
    with process_message_regular [OF None Inr a] assms show ?thesis
      by (auto split: if_splits)
  qed
qed

lemma message_loop_exported:
  "message_loop P conn d ms st = Inr st' \<Longrightarrow> exported_chats st' = exported_chats st"
proof (induction ms arbitrary: st)
  case Nil
  then show ?case by simp
next
  case (Cons m ms)
  then show ?case
    by (auto split: sum.splits dest: process_message_exported)
qed

lemma export_chat_unfiltered_changes:
  assumes "get_messages_for_chat conn (chat_id c) \<noteq> []"
  shows "export_chat P conn rd None c st \<noteq> Inr st"
proof
  assume e: "export_chat P conn rd None c st = Inr st"
  let ?chat_dir = "join rd (sanitize_filename (Some (get_chat_display_name c)))"
  let ?st0 = "st\<lparr>exported_chats := exported_chats st + 1,
      files := makedirs P ?chat_dir (files st),
      lines := header c (get_chat_display_name c) (get_messages_for_chat conn (chat_id c))\<rparr>"
  from e assms obtain st1 where
    l: "message_loop P conn (join ?chat_dir (ustr ''attachments''))
          (get_messages_for_chat conn (chat_id c)) ?st0 = Inr st1"
    and s: "st = st1\<lparr>files := write_text P (join ?chat_dir (ustr ''chat.txt''))
          (join_str [10] (lines st1) @ [10]) (files st1)\<rparr>"
    by (auto simp: export_chat_def filter_skips_def truthy_def Let_def split: sum.splits)
  from message_loop_exported [OF l] have "exported_chats st1 = exported_chats st + 1" by simp
  moreover from s have "exported_chats st = exported_chats st1"
    by (cases st1) simp
  ultimately show False by simp
qed

text \<open>
  C3. With an active (non-empty) contact filter, say that a conversation matches when the
  lower-cased filter occurs as a substring in the lower-cased canonical identifier,
  participant list or display name, an absent field counting as the empty string. The
  filter step skips the conversation exactly when it does not match. A conversation that
  matches is exported exactly as with no filter; one that does not match leaves the state
  of the export unchanged whatever the connection returns for its messages, so that no
  message body is consulted; and a conversation with at least one message changes the
  state of the export if and only if it matches.
\<close>

theorem contact_filter_inclusion:
  assumes "contact_filter \<noteq> []"
  shows "(let matches = (\<exists>ident \<in> set [or_else (chat_identifier c) [], or_else (participants c) [],
                                        or_else (display_name c) []].
                          \<exists>ps ss. lower P ident = ps @ lower P contact_filter @ ss)
          in (filter_skips P (Some contact_filter) c \<longleftrightarrow> \<not> matches) \<and>
             (matches \<longrightarrow> (\<forall>conn rd st. export_chat P conn rd (Some contact_filter) c st =
                                          export_chat P conn rd None c st)) \<and>
             (\<not> matches \<longrightarrow> (\<forall>conn rd st. export_chat P conn rd (Some contact_filter) c st = Inr st)) \<and>
             (\<forall>conn rd st. get_messages_for_chat conn (chat_id c) \<noteq> [] \<longrightarrow>
                (export_chat P conn rd (Some contact_filter) c st \<noteq> Inr st \<longleftrightarrow> matches)))"
proof -
  define matches where "matches \<longleftrightarrow>
    (\<exists>ident \<in> set [or_else (chat_identifier c) [], or_else (participants c) [],
                    or_else (display_name c) []].
       \<exists>ps ss. lower P ident = ps @ lower P contact_filter @ ss)"
  have skip: "filter_skips P (Some contact_filter) c \<longleftrightarrow> \<not> matches"
    using assms
    by (simp add: filter_skips_def truthy_def or_else_def Let_def matches_def str_in_iff)
  have none: "\<not> filter_skips P None c" by (simp add: filter_skips_def truthy_def)
  have incl: "export_chat P conn rd (Some contact_filter) c st = export_chat P conn rd None c st"
    if matches for conn rd st
    using that skip none by (simp add: export_chat_def)
  have excl: "export_chat P conn rd (Some contact_filter) c st = Inr st"
    if "\<not> matches" for conn rd st
    using that skip by (simp add: export_chat_def)
  have iff: "export_chat P conn rd (Some contact_filter) c st \<noteq> Inr st \<longleftrightarrow> matches"
    if "get_messages_for_chat conn (chat_id c) \<noteq> []" for conn rd st
    using incl [of conn rd st] excl [of conn rd st] export_chat_unfiltered_changes [OF that, of P rd st]
    by (cases matches) simp_all
  from skip incl excl iff show ?thesis
    unfolding Let_def matches_def [symmetric] by blast
qed

text \<open>
  On scenario B: the filter \<open>+1555\<close> excludes the conversation although the body of its
  message contains it; the filter \<open>ANN\<close> matches the display name \<open>Ann\<close>, and the
  conversation is exported.
\<close>

theorem contact_filter_inclusion_witness:
  "export_chat sample_platform scenario_b (ustr ''out/readable'') (Some (ustr ''+1555''))
      scenario_b_chat
      \<lparr>files = {|ustr ''out/readable''|}, total_messages = 0, total_attachments_copied = 0,
       exported_chats = 0, lines = []\<rparr>
     = Inr \<lparr>files = {|ustr ''out/readable''|}, total_messages = 0, total_attachments_copied = 0,
            exported_chats = 0, lines = []\<rparr> \<and>
   export_chat sample_platform scenario_b (ustr ''out/readable'') (Some (ustr ''ANN''))
      scenario_b_chat
      \<lparr>files = {|ustr ''out/readable''|}, total_messages = 0, total_attachments_copied = 0,
       exported_chats = 0, lines = []\<rparr>
     = export_chat sample_platform scenario_b (ustr ''out/readable'') None scenario_b_chat
         \<lparr>files = {|ustr ''out/readable''|}, total_messages = 0, total_attachments_copied = 0,
          exported_chats = 0, lines = []\<rparr> \<and>
   export_chat sample_platform scenario_b (ustr ''out/readable'') (Some (ustr ''ANN''))
      scenario_b_chat
      \<lparr>files = {|ustr ''out/readable''|}, total_messages = 0, total_attachments_copied = 0,
       exported_chats = 0, lines = []\<rparr>
     \<noteq> Inr \<lparr>files = {|ustr ''out/readable''|}, total_messages = 0, total_attachments_copied = 0,
            exported_chats = 0, lines = []\<rparr>"
proof -
  let ?idents = "[or_else (chat_identifier scenario_b_chat) [],
      or_else (participants scenario_b_chat) [], or_else (display_name scenario_b_chat) []]"
  have ne: "ustr ''+1555'' \<noteq> []" "ustr ''ANN'' \<noteq> []" by (simp_all add: ustr_def)
  have no: "\<not> (\<exists>ident \<in> set ?idents.
      \<exists>ps ss. lower sample_platform ident = ps @ lower sample_platform (ustr ''+1555'') @ ss)"
    unfolding str_in_iff [symmetric]
    by (simp add: scenario_b_chat_def or_else_def sample_platform_def ustr_def)
  have yes: "\<exists>ident \<in> set ?idents.
      \<exists>ps ss. lower sample_platform ident = ps @ lower sample_platform (ustr ''ANN'') @ ss"
    unfolding str_in_iff [symmetric]
    by (simp add: scenario_b_chat_def or_else_def sample_platform_def ustr_def)
  have msgs: "get_messages_for_chat scenario_b (chat_id scenario_b_chat) \<noteq> []"
    by (simp add: scenario_b_def scenario_b_chat_def)
  from contact_filter_inclusion [OF ne(1), of scenario_b_chat sample_platform] no
  have 1: "export_chat sample_platform conn rd (Some (ustr ''+1555'')) scenario_b_chat st = Inr st"
    for conn rd st
    unfolding Let_def by blast
  from contact_filter_inclusion [OF ne(2), of scenario_b_chat sample_platform] yes
  have 2: "export_chat sample_platform conn rd (Some (ustr ''ANN'')) scenario_b_chat st =
      export_chat sample_platform conn rd None scenario_b_chat st" for conn rd st
    unfolding Let_def by blast
  from contact_filter_inclusion [OF ne(2), of scenario_b_chat sample_platform] yes msgs
  have 3: "export_chat sample_platform scenario_b rd (Some (ustr ''ANN'')) scenario_b_chat st \<noteq> Inr st"
    for rd st
    unfolding Let_def by blast
  from 1 2 3 show ?thesis by blast
qed

section \<open>Sanitizer: idempotence\<close>

lemma sub_runs_head:
  "sub_runs xs = y # ys \<Longrightarrow> xs \<noteq> [] \<and> y = (if run_char (hd xs) then 32 else hd xs)"
  by (cases xs) (auto split: if_splits)

lemma run_char_32: "run_char 32"
  by (simp add: run_char_def isspace_def)

lemma spaced_sub_runs: "spaced (sub_runs s)"
proof (induction s rule: sub_runs.induct)
  case 1
  show ?case by simp
next
  case (2 c cs)
  show ?case
  proof (cases "run_char c")
    case True
    let ?rest = "dropWhile run_char cs"
    have "\<not> run_char d" if "sub_runs ?rest = d # ds" for d ds
    proof -
      from sub_runs_head [OF that] have ne: "?rest \<noteq> []"
        and d: "d = (if run_char (hd ?rest) then 32 else hd ?rest)" by simp_all
      from ne have "\<not> run_char (hd ?rest)" by (rule hd_dropWhile)
      with d show ?thesis by simp
    qed
    with True "2.IH"(1) show ?thesis by (auto split: list.splits)
  next
    case False
    with "2.IH"(2) show ?thesis by simp
  qed
qed

lemma sub_runs_spaced: "spaced s \<Longrightarrow> sub_runs s = s"
proof (induction s rule: sub_runs.induct)
  case 1
  show ?case by simp
next
  case (2 c cs)
  show ?case
  proof (cases "run_char c")
    case True
    with "2.prems" have c: "c = 32" and d: "dropWhile run_char cs = cs" and s: "spaced cs"
      by (auto split: list.splits)
    from "2.IH"(1) [OF True] s d have "sub_runs cs = cs" by simp
    with True c d show ?thesis by simp
  next
    case False
    with "2.IH"(2) "2.prems" show ?thesis by simp
  qed
qed

lemma set_sub_runs: "set (sub_runs s) \<subseteq> insert 32 (set s)"
proof (induction s rule: sub_runs.induct)
  case 1
  show ?case by simp
next
  case (2 c cs)
  show ?case
  proof (cases "run_char c")
    case True
    from "2.IH"(1) [OF True] set_dropWhileD [of _ run_char cs] True show ?thesis by auto
  next
    case False
    with "2.IH"(2) show ?thesis by auto
  qed
qed

lemma spaced_drop: "spaced s \<Longrightarrow> spaced (drop n s)"
proof (induction s arbitrary: n)
  case Nil
  show ?case by simp
next
  case (Cons c cs)
  then show ?case by (cases n) simp_all
qed

lemma spaced_take: "spaced s \<Longrightarrow> spaced (take n s)"
proof (induction s arbitrary: n)
  case Nil
  show ?case by simp
next
  case (Cons c cs)
  show ?case
  proof (cases n)
    case 0
    then show ?thesis by simp
  next
    case (Suc m)
    from Cons.prems have "spaced cs" by simp
    then have "spaced (take m cs)" by (rule Cons.IH)
    moreover have "\<not> run_char d" if "run_char c" "take m cs = d # ds" for d ds
    proof -
      from that(2) obtain cs' where "cs = d # cs'" by (cases cs; cases m) auto
      with Cons.prems that(1) show ?thesis by simp
    qed
    ultimately show ?thesis using Cons.prems Suc by (auto split: list.splits)
  qed
qed

lemma rstrip_take: "rev (dropWhile P (rev xs)) = take (length xs - length (takeWhile P (rev xs))) xs"
  by (simp add: dropWhile_eq_drop rev_drop)

lemma strip_take_drop:
  "\<exists>k j. strip s = take k (drop j s)"
  unfolding strip_def rstrip_take by (metis dropWhile_eq_drop)

lemma spaced_strip:
  assumes "spaced s"
  shows "spaced (strip s)"
proof -
  from strip_take_drop [of s] obtain k j where "strip s = take k (drop j s)" by blast
  moreover from assms have "spaced (take k (drop j s))" by (intro spaced_take spaced_drop)
  ultimately show ?thesis by simp
qed

lemma set_strip: "set (strip s) \<subseteq> set s"
proof -
  from strip_take_drop [of s] obtain k j where "strip s = take k (drop j s)" by blast
  moreover have "set (take k (drop j s)) \<subseteq> set s"
    using set_take_subset [of k "drop j s"] set_drop_subset [of j s] by blast
  ultimately show ?thesis by simp
qed

lemma length_strip: "length (strip s) \<le> length s"
  using strip_take_drop [of s] by auto

lemma strip_ends:
  assumes "strip s \<noteq> []"
  shows "\<not> isspace (hd (strip s)) \<and> \<not> isspace (last (strip s))"
proof -
  let ?t = "dropWhile isspace s"
  let ?u = "dropWhile isspace (rev ?t)"
  from assms have u: "?u \<noteq> []" by (simp add: strip_def)
  then have "\<not> isspace (hd ?u)" by (rule hd_dropWhile)
  with u have l: "\<not> isspace (last (strip s))" by (simp add: strip_def last_rev)
  have t: "?t \<noteq> []"
  proof
    assume "?t = []"
    then have "?u = []" by (simp only: rev.simps dropWhile.simps)
    with u show False by contradiction
  qed
  then have "\<not> isspace (hd ?t)" by (rule hd_dropWhile)
  moreover have "hd (strip s) = hd ?t"
  proof -
    have "strip s = take (length ?t - length (takeWhile isspace (rev ?t))) ?t"
      unfolding strip_def by (rule rstrip_take)
    with assms show ?thesis by (metis hd_take take_eq_Nil not_gr_zero)
  qed
  ultimately show ?thesis using l by simp
qed

lemma strip_fixed:
  assumes "r \<noteq> []" "\<not> isspace (hd r)" "\<not> isspace (last r)"
  shows "strip r = r"
proof -
  from assms have "dropWhile isspace r = r" by (cases r) simp_all
  moreover from assms have "dropWhile isspace (rev r) = rev r"
    by (cases "rev r") (simp_all add: last_rev [symmetric] hd_rev)
  ultimately show ?thesis by (simp add: strip_def)
qed

lemma tidy_Unknown: "tidy (ustr ''Unknown'')"
  by (simp add: tidy_def ustr_def invalid_char_def run_char_def isspace_def)

lemma sub_invalid_valid: "c \<in> set (sub_invalid n) \<Longrightarrow> \<not> invalid_char c"
  by (auto simp: sub_invalid_def invalid_char_def)

lemma sub_runs_valid:
  assumes "c \<in> set (sub_runs (sub_invalid n))"
  shows "\<not> invalid_char c"
proof -
  from assms set_sub_runs [of "sub_invalid n"] have "c = 32 \<or> c \<in> set (sub_invalid n)" by auto
  then show ?thesis
  proof
    assume "c = 32"
    then show ?thesis by (simp add: invalid_char_def)
  next
    assume "c \<in> set (sub_invalid n)"
    then show ?thesis by (rule sub_invalid_valid)
  qed
qed

lemma tidy_strip:
  assumes "spaced s" and "\<forall>c \<in> set s. \<not> invalid_char c" and "strip s \<noteq> []"
    and "length (strip s) \<le> 100"
  shows "tidy (strip s)"
  unfolding tidy_def
  using assms spaced_strip [OF assms(1)] set_strip [of s] strip_ends [OF assms(3)]
  by blast

lemma tidy_sanitize_filename: "tidy (sanitize_filename name)"
proof (cases name)
  case None
  then show ?thesis by (simp add: sanitize_filename_def tidy_Unknown)
next
  case (Some n)
  let ?s = "sub_runs (sub_invalid n)"
  have sp: "spaced ?s" by (rule spaced_sub_runs)
  have va: "\<forall>c \<in> set ?s. \<not> invalid_char c" using sub_runs_valid by blast
  let ?t = "take 100 (strip ?s)"
  have sp': "spaced ?t" using sp by (intro spaced_take spaced_strip)
  have va': "\<forall>c \<in> set ?t. \<not> invalid_char c"
    using va set_strip [of ?s] set_take_subset [of 100 "strip ?s"] by blast
  have le': "length (strip ?t) \<le> 100"
    using length_strip [of ?t] by simp
  show ?thesis
  proof (cases "n = []")
    case True
    with Some show ?thesis by (simp add: sanitize_filename_def tidy_Unknown)
  next
    case False
    show ?thesis
    proof (cases "length (strip ?s) > 100")
      case long: True
      show ?thesis
      proof (cases "strip ?t = []")
        case True
        with Some False long show ?thesis by (simp add: sanitize_filename_def tidy_Unknown)
      next
        case ne: False
        from tidy_strip [OF sp' va' ne le'] Some False long ne show ?thesis
          by (simp add: sanitize_filename_def)
      qed
    next
      case short: False
      show ?thesis
      proof (cases "strip ?s = []")
        case True
        with Some False short show ?thesis by (simp add: sanitize_filename_def tidy_Unknown)
      next
        case ne: False
        from short have "length (strip ?s) \<le> 100" by simp
        from tidy_strip [OF sp va ne this] Some False short ne show ?thesis
          by (simp add: sanitize_filename_def)
      qed
    qed
  qed
qed

lemma sanitize_filename_tidy:
  assumes "tidy r"
  shows "sanitize_filename (Some r) = r"
proof -
  from assms have ne: "r \<noteq> []" and va: "\<forall>c \<in> set r. \<not> invalid_char c" and sp: "spaced r"
    and ends: "\<not> isspace (hd r)" "\<not> isspace (last r)" and le: "length r \<le> 100"
    by (simp_all add: tidy_def)
  from va have 1: "sub_invalid r = r" by (simp add: sub_invalid_def map_idI)
  from sp have 2: "sub_runs r = r" by (rule sub_runs_spaced)
  from ne ends have 3: "strip r = r" by (rule strip_fixed)
  from ne le show ?thesis by (simp add: sanitize_filename_def 1 2 3)
qed

text \<open>
  C9. The sanitizer is idempotent: sanitizing its result gives the result again, for every
  string and for the absent name.
\<close>

theorem sanitize_filename_idempotent:
  "sanitize_filename (Some (sanitize_filename name)) = sanitize_filename name"
proof -
  have "tidy (sanitize_filename name)" by (rule tidy_sanitize_filename)
  then show ?thesis by (rule sanitize_filename_tidy)
qed

text \<open>
  A name with a colon, a slash, underscores, doubled spaces and a question mark, and its
  sanitized form.
\<close>

theorem sanitize_filename_idempotent_witness:
  "sanitize_filename (Some (ustr ''Mom: 2023/24 __ plans ?'')) = ustr ''Mom 2023 24 plans'' \<and>
   sanitize_filename (Some (ustr ''Mom 2023 24 plans'')) = ustr ''Mom 2023 24 plans''"
proof -
  have e: "sanitize_filename (Some (ustr ''Mom: 2023/24 __ plans ?'')) = ustr ''Mom 2023 24 plans''"
    by (simp add: sanitize_filename_def sub_invalid_def invalid_char_def run_char_def isspace_def
        strip_def Let_def ustr_def)
  from sanitize_filename_idempotent [of "Some (ustr ''Mom: 2023/24 __ plans ?'')"] e
  show ?thesis by simp
qed

end
